theory Spec2Isabelle
  imports Complex_Main
begin

unbundle bit_operations_syntax

section \<open>Values and errors\<close>

text \<open>
  The exceptions of the Python source that the model distinguishes.
\<close>

datatype pyerror = IndexError | ValueError | TypeError | RuntimeError | LinAlgError

text \<open>
  A numpy float: a finite value, one of the two infinities, or NaN. Rounding and
  overflow to infinity are not modelled (finite values are reals), and a zero is the
  positive zero. Comparisons with NaN are false, as in IEEE arithmetic.
\<close>

datatype npfloat = Fin real | PInf | NInf | NaN

fun np_neg :: "npfloat \<Rightarrow> npfloat" where
  "np_neg (Fin a) = Fin (- a)"
| "np_neg PInf = NInf"
| "np_neg NInf = PInf"
| "np_neg NaN = NaN"

fun np_add :: "npfloat \<Rightarrow> npfloat \<Rightarrow> npfloat" where
  "np_add (Fin a) (Fin b) = Fin (a + b)"
| "np_add NaN y = NaN"
| "np_add x NaN = NaN"
| "np_add PInf NInf = NaN"
| "np_add NInf PInf = NaN"
| "np_add PInf y = PInf"
| "np_add NInf y = NInf"
| "np_add (Fin a) y = y"

definition np_sub :: "npfloat \<Rightarrow> npfloat \<Rightarrow> npfloat" where
  "np_sub x y = np_add x (np_neg y)"

fun np_abs :: "npfloat \<Rightarrow> npfloat" where
  "np_abs (Fin a) = Fin \<bar>a\<bar>"
| "np_abs PInf = PInf"
| "np_abs NInf = PInf"
| "np_abs NaN = NaN"

fun np_div :: "npfloat \<Rightarrow> npfloat \<Rightarrow> npfloat" where
  "np_div (Fin a) (Fin b) =
     (if b = 0 then (if a = 0 then NaN else if 0 < a then PInf else NInf)
      else Fin (a / b))"
| "np_div NaN y = NaN"
| "np_div x NaN = NaN"
| "np_div (Fin a) y = Fin 0"
| "np_div x (Fin b) = (if 0 \<le> b then x else np_neg x)"
| "np_div x y = NaN"

fun np_mul :: "npfloat \<Rightarrow> npfloat \<Rightarrow> npfloat" where
  "np_mul (Fin a) (Fin b) = Fin (a * b)"
| "np_mul NaN y = NaN"
| "np_mul x NaN = NaN"
| "np_mul (Fin a) y = (if a = 0 then NaN else if 0 < a then y else np_neg y)"
| "np_mul x (Fin b) = (if b = 0 then NaN else if 0 < b then x else np_neg x)"
| "np_mul x y = (if x = y then PInf else NInf)"

fun np_lt :: "npfloat \<Rightarrow> npfloat \<Rightarrow> bool" where
  "np_lt (Fin a) (Fin b) = (a < b)"
| "np_lt NaN y = False"
| "np_lt x NaN = False"
| "np_lt x NInf = False"
| "np_lt PInf y = False"
| "np_lt x y = True"

definition np_gt :: "npfloat \<Rightarrow> npfloat \<Rightarrow> bool" where
  "np_gt x y = np_lt y x"

fun np_le :: "npfloat \<Rightarrow> npfloat \<Rightarrow> bool" where
  "np_le NaN y = False"
| "np_le x NaN = False"
| "np_le x y = (x = y \<or> np_lt x y)"

definition np_ge :: "npfloat \<Rightarrow> npfloat \<Rightarrow> bool" where
  "np_ge x y = np_le y x"

fun np_isfinite :: "npfloat \<Rightarrow> bool" where
  "np_isfinite (Fin a) = True"
| "np_isfinite x = False"

text \<open>
  Python indexing \<open>xs[i]\<close>: a negative index counts from the end, an index out of
  range raises IndexError.
\<close>

definition py_index :: "nat \<Rightarrow> int \<Rightarrow> nat option" where
  "py_index n i =
     (if 0 \<le> i \<and> i < int n then Some (nat i)
      else if - int n \<le> i \<and> i < 0 then Some (nat (int n + i))
      else None)"

definition py_get :: "'a list \<Rightarrow> int \<Rightarrow> pyerror + 'a" where
  "py_get xs i =
     (case py_index (length xs) i of
        None \<Rightarrow> Inl IndexError
      | Some j \<Rightarrow> Inr (xs ! j))"

text \<open>
  Python slicing \<open>xs[a:b]\<close>: negative bounds count from the end, bounds are clamped
  to the list, and an empty range gives the empty list without any error.
\<close>

definition py_bound :: "nat \<Rightarrow> int \<Rightarrow> nat" where
  "py_bound n i = (if i < 0 then nat (max (int n + i) 0) else min (nat i) n)"

definition py_slice :: "'a list \<Rightarrow> int \<Rightarrow> int \<Rightarrow> 'a list" where
  "py_slice xs a b =
     (let lo = py_bound (length xs) a; hi = py_bound (length xs) b
      in take (hi - lo) (drop lo xs))"

section \<open>Library functions taken as parameters\<close>

text \<open>
  \<open>FINDflare\<close> calls \<open>np.nanmedian\<close>, \<open>np.nanstd\<close> and pandas'
  \<open>Series.rolling(w, center=True).std()\<close>. They are library code, so the model
  takes them as parameters.
\<close>

record statlib =
  nanmedian :: "npfloat list \<Rightarrow> npfloat"
  nanstd :: "npfloat list \<Rightarrow> npfloat"
  rolling_std :: "nat \<Rightarrow> npfloat list \<Rightarrow> npfloat list"

section \<open>FINDflare\<close>

text \<open>
  The noise estimate \<open>sig_i\<close>: the standard deviation of the input, or with
  \<open>avg_std\<close> the median of the rolling standard deviation.
\<close>

definition FINDflare_sig :: "statlib \<Rightarrow> npfloat list \<Rightarrow> bool \<Rightarrow> nat \<Rightarrow> npfloat" where
  "FINDflare_sig L flux avg_std std_window =
     (if \<not> avg_std then nanstd L flux
      else nanmedian L (rolling_std L std_window flux))"

text \<open>
  The three arrays \<open>ca\<close>, \<open>cb\<close>, \<open>cc\<close> of the source. \<open>flux\<close> and \<open>error\<close>
  have the same number of elements (the docstring's ``errors corresponding to data'').
\<close>

definition FINDflare_ca :: "statlib \<Rightarrow> npfloat list \<Rightarrow> npfloat list" where
  "FINDflare_ca L flux = map (\<lambda>f. np_sub f (nanmedian L flux)) flux"

definition FINDflare_cb :: "statlib \<Rightarrow> npfloat list \<Rightarrow> bool \<Rightarrow> nat \<Rightarrow> npfloat list" where
  "FINDflare_cb L flux avg_std std_window =
     map (\<lambda>f. np_div (np_abs (np_sub f (nanmedian L flux)))
                 (FINDflare_sig L flux avg_std std_window)) flux"

definition FINDflare_cc ::
  "statlib \<Rightarrow> npfloat list \<Rightarrow> npfloat list \<Rightarrow> bool \<Rightarrow> nat \<Rightarrow> npfloat list" where
  "FINDflare_cc L flux error avg_std std_window =
     map (\<lambda>(f, e). np_div (np_abs (np_sub (np_sub f (nanmedian L flux)) e))
                      (FINDflare_sig L flux avg_std std_window)) (zip flux error)"

text \<open>
  \<open>ctmp = np.where((ca > 0) & (cb > N1) & (cc > N2))\<close>: the indices at which the
  three cuts hold.
\<close>

definition FINDflare_ctmp ::
  "statlib \<Rightarrow> npfloat list \<Rightarrow> npfloat list \<Rightarrow> real \<Rightarrow> real \<Rightarrow> bool \<Rightarrow> nat \<Rightarrow> nat list" where
  "FINDflare_ctmp L flux error N1 N2 avg_std std_window =
     [i \<leftarrow> [0..<length flux].
        np_gt (FINDflare_ca L flux ! i) (Fin 0)
        \<and> np_gt (FINDflare_cb L flux avg_std std_window ! i) (Fin N1)
        \<and> np_gt (FINDflare_cc L flux error avg_std std_window ! i) (Fin N2)]"

text \<open>
  \<open>cindx = np.zeros_like(flux); cindx[ctmp] = 1\<close>.
\<close>

definition FINDflare_cindx ::
  "statlib \<Rightarrow> npfloat list \<Rightarrow> npfloat list \<Rightarrow> real \<Rightarrow> real \<Rightarrow> bool \<Rightarrow> nat \<Rightarrow> int list" where
  "FINDflare_cindx L flux error N1 N2 avg_std std_window =
     fold (\<lambda>i c. c[i := 1]) (FINDflare_ctmp L flux error N1 N2 avg_std std_window)
       (replicate (length flux) 0)"

text \<open>
  The backward scan. \<open>ConM\<close> starts as zeros and the loop
  \<open>for k in range(2, len(flux)): ConM[-k] = cindx[-k] * (ConM[-(k-1)] + cindx[-k])\<close>
  writes the positions \<open>len - k\<close>. For \<open>k\<close> in that range both \<open>-k\<close> and \<open>-(k-1)\<close>
  are valid negative indices.
\<close>

definition ConM_step :: "int list \<Rightarrow> nat \<Rightarrow> int list \<Rightarrow> int list" where
  "ConM_step cindx k ConM =
     (let n = length cindx
      in ConM[n - k := cindx ! (n - k) * (ConM ! (n - (k - 1)) + cindx ! (n - k))])"

definition ConM_scan :: "int list \<Rightarrow> int list" where
  "ConM_scan cindx =
     fold (ConM_step cindx) [2..<length cindx] (replicate (length cindx) 0)"

text \<open>
  \<open>istart_i = np.where((ConM[1:] >= N3) & (ConM[0:-1] - ConM[1:] < 0))[0] + 1\<close> and
  \<open>istop_i = istart_i + (ConM[istart_i] - 1)\<close>.
\<close>

definition FINDflare_istart :: "int list \<Rightarrow> int \<Rightarrow> nat list" where
  "FINDflare_istart ConM N3 =
     [j + 1. j \<leftarrow> [0..<length ConM - 1],
        N3 \<le> ConM ! (j + 1) \<and> ConM ! j - ConM ! (j + 1) < 0]"

definition FINDflare_runs :: "int list \<Rightarrow> int \<Rightarrow> int list \<times> int list" where
  "FINDflare_runs cindx N3 =
     (let ConM = ConM_scan cindx;
          istart = FINDflare_istart ConM N3
      in (map int istart, map (\<lambda>s. int s + (ConM ! s - 1)) istart))"

text \<open>
  \<open>FINDflare\<close> with \<open>returnbinary=False\<close>: the start and stop indices.
\<close>

definition FINDflare ::
  "statlib \<Rightarrow> npfloat list \<Rightarrow> npfloat list \<Rightarrow> real \<Rightarrow> real \<Rightarrow> int \<Rightarrow> bool \<Rightarrow> nat
     \<Rightarrow> int list \<times> int list" where
  "FINDflare L flux error N1 N2 N3 avg_std std_window =
     FINDflare_runs (FINDflare_cindx L flux error N1 N2 avg_std std_window) N3"

text \<open>
  \<open>FINDflare\<close> with \<open>returnbinary=True\<close>: \<open>bin_out[istart_i[k]:istop_i[k]+1] = 1\<close>
  for every event.
\<close>

definition bin_fill :: "int \<times> int \<Rightarrow> int list \<Rightarrow> int list" where
  "bin_fill se b =
     (let lo = py_bound (length b) (fst se); hi = py_bound (length b) (snd se + 1)
      in fold (\<lambda>i c. c[i := 1]) [lo..<hi] b)"

definition bin_out :: "nat \<Rightarrow> int list \<times> int list \<Rightarrow> int list" where
  "bin_out n ev = fold bin_fill (zip (fst ev) (snd ev)) (replicate n 0)"

definition FINDflare_binary ::
  "statlib \<Rightarrow> npfloat list \<Rightarrow> npfloat list \<Rightarrow> real \<Rightarrow> real \<Rightarrow> int \<Rightarrow> bool \<Rightarrow> nat
     \<Rightarrow> int list" where
  "FINDflare_binary L flux error N1 N2 N3 avg_std std_window =
     bin_out (length flux) (FINDflare L flux error N1 N2 N3 avg_std std_window)"

text \<open>
  The run count that the recurrence of the scan computes on a list: for a list of zeros
  and ones it is the number of leading ones.
\<close>

fun cumrun :: "int list \<Rightarrow> int" where
  "cumrun [] = 0"
| "cumrun (x # xs) = x * (cumrun xs + x)"

section \<open>FlagCuts\<close>

text \<open>
  \<open>FlagCuts(flags, bad_flags, returngood=False)\<close>: for every sample the sum over the
  bad flags \<open>k\<close> of \<open>flags & k\<close>, starting from zeros. The default \<open>bad_flags\<close> is
  \<open>(16, 128, 2048)\<close>.
\<close>

definition FlagCuts_bad :: "int list \<Rightarrow> int list \<Rightarrow> int list" where
  "FlagCuts_bad flags bad_flags =
     fold (\<lambda>k bad. map (\<lambda>(b, f). b + (f AND k)) (zip bad flags)) bad_flags
       (replicate (length flags) 0)"

text \<open>
  \<open>FlagCuts\<close> with \<open>returngood=True\<close>: \<open>np.where(bad < 1)[0]\<close>.
\<close>

definition FlagCuts_good :: "int list \<Rightarrow> int list \<Rightarrow> nat list" where
  "FlagCuts_good flags bad_flags =
     [i \<leftarrow> [0..<length flags]. FlagCuts_bad flags bad_flags ! i < 1]"

definition default_bad_flags :: "int list" where
  "default_bad_flags = [16, 128, 2048]"

section \<open>MultiFind\<close>

text \<open>
  \<open>cand1 = np.where((bad < 1) & (isflare > 0))[0]\<close>, for arrays of one length.
\<close>

definition MultiFind_cand1 :: "int list \<Rightarrow> int list \<Rightarrow> nat list" where
  "MultiFind_cand1 bad isflare =
     [i \<leftarrow> [0..<length bad]. bad ! i < 1 \<and> 0 < isflare ! i]"

text \<open>
  \<open>np.delete(arr, obj)\<close> for an array of positions: the array without the elements at
  these positions; a position out of bounds raises IndexError.
\<close>

definition np_delete :: "'a list \<Rightarrow> nat list \<Rightarrow> pyerror + 'a list" where
  "np_delete arr obj =
     (if list_all (\<lambda>k. k < length arr) obj
      then Inr [arr ! k. k \<leftarrow> [0..<length arr], k \<notin> set obj]
      else Inl IndexError)"

text \<open>
  The positions in \<open>cand1\<close> of the candidates closer in time than \<open>gapwindow\<close> to a
  reference time: \<open>np.where(np.abs(time[cand1] - t) < gapwindow)\<close>.
\<close>

definition near_edge :: "npfloat list \<Rightarrow> nat list \<Rightarrow> npfloat \<Rightarrow> npfloat \<Rightarrow> nat list" where
  "near_edge time cand1 t gapwindow =
     [k \<leftarrow> [0..<length cand1].
        np_lt (np_abs (np_sub (time ! (cand1 ! k)) t)) gapwindow]"

text \<open>
  The edge cut: both position lists are computed on the first \<open>cand1\<close>, then deleted one
  after the other.
\<close>

definition MultiFind_edges :: "npfloat list \<Rightarrow> nat list \<Rightarrow> npfloat \<Rightarrow> pyerror + nat list" where
  "MultiFind_edges time cand1 gapwindow =
     (case py_get time (- 1) of
        Inl err \<Rightarrow> Inl err
      | Inr tlast \<Rightarrow>
          (case py_get time 0 of
             Inl err \<Rightarrow> Inl err
           | Inr tfirst \<Rightarrow>
               (case np_delete cand1 (near_edge time cand1 tlast gapwindow) of
                  Inl err \<Rightarrow> Inl err
                | Inr c \<Rightarrow> np_delete c (near_edge time cand1 tfirst gapwindow))))"

text \<open>
  The grouping of neighbouring candidates: a new event starts after every position at
  which the next candidate is more than \<open>minsep\<close> indices away.
\<close>

definition MultiFind_breaks :: "nat list \<Rightarrow> int \<Rightarrow> nat list" where
  "MultiFind_breaks cand1 minsep =
     [k \<leftarrow> [0..<length cand1 - 1]. minsep < int (cand1 ! (k + 1)) - int (cand1 ! k)]"

definition MultiFind_group :: "nat list \<Rightarrow> int \<Rightarrow> int list \<times> int list" where
  "MultiFind_group cand1 minsep =
     (if length cand1 < 1 then ([], [])
      else (map (\<lambda>k. int (cand1 ! k)) (0 # map Suc (MultiFind_breaks cand1 minsep)),
            map (\<lambda>k. int (cand1 ! k)) (MultiFind_breaks cand1 minsep @ [length cand1 - 1])))"

text \<open>
  \<open>to1 = np.where(istart - istop == 0); istop[to1] += 1\<close>.
\<close>

definition MultiFind_bump :: "int list \<Rightarrow> int list \<Rightarrow> int list" where
  "MultiFind_bump istart istop =
     map (\<lambda>(s, e). if s - e = 0 then e + 1 else e) (zip istart istop)"

text \<open>
  The part of \<open>MultiFind\<close> after the final \<open>FINDflare\<close> call, from the quality mask
  \<open>bad\<close> and the binary array \<open>isflare\<close>.
\<close>

definition MultiFind_select ::
  "npfloat list \<Rightarrow> int list \<Rightarrow> int list \<Rightarrow> npfloat \<Rightarrow> int \<Rightarrow> pyerror + int list \<times> int list" where
  "MultiFind_select time bad isflare gapwindow minsep =
     (case MultiFind_edges time (MultiFind_cand1 bad isflare) gapwindow of
        Inl err \<Rightarrow> Inl err
      | Inr cand1 \<Rightarrow>
          Inr (fst (MultiFind_group cand1 minsep),
               MultiFind_bump (fst (MultiFind_group cand1 minsep))
                 (snd (MultiFind_group cand1 minsep))))"

text \<open>
  \<open>MultiFind\<close>. The detrending of the chosen \<open>mode\<close> is code of the \<open>detrend\<close> module
  and of scipy; it is the parameter \<open>detrender\<close>, which gives \<open>flux_model\<close> and
  \<open>flux_diff\<close>. The final search is
  \<open>FINDflare(flux_diff, error, N1=3, N3=3, returnbinary=True, avg_std=True)\<close>, with the
  defaults \<open>N2 = 1\<close> and \<open>std_window = 7\<close>.
\<close>

definition MultiFind ::
  "statlib \<Rightarrow> (npfloat list \<Rightarrow> npfloat list \<Rightarrow> npfloat list \<Rightarrow> npfloat list \<times> npfloat list)
     \<Rightarrow> npfloat list \<Rightarrow> npfloat list \<Rightarrow> npfloat list \<Rightarrow> int list \<Rightarrow> npfloat \<Rightarrow> int
     \<Rightarrow> pyerror + int list \<times> int list \<times> npfloat list" where
  "MultiFind L detrender time flux error flags gapwindow minsep =
     (case MultiFind_select time (FlagCuts_bad flags default_bad_flags)
             (FINDflare_binary L (snd (detrender time flux error)) error 3 1 3 True 7)
             gapwindow minsep of
        Inl err \<Rightarrow> Inl err
      | Inr (istart, istop) \<Rightarrow> Inr (istart, istop, fst (detrender time flux error)))"

section \<open>Completeness thresholds in RunLC\<close>

text \<open>
  Indexing with a boolean mask, \<open>a[rl]\<close>, for a mask as long as the array.
\<close>

definition np_mask :: "bool list \<Rightarrow> 'a list \<Rightarrow> 'a list" where
  "np_mask rl a = map snd (filter fst (zip rl a))"

text \<open>
  Python's built-in \<open>min\<close> on a sequence that is not empty: it keeps the first
  element and replaces it by every later element that compares smaller.
\<close>

definition py_min :: "npfloat list \<Rightarrow> npfloat" where
  "py_min xs = fold (\<lambda>y m. if np_lt y m then y else m) (tl xs) (hd xs)"

text \<open>
  \<open>x68 = np.where(frac_rec_sm >= 0.68)\<close>, then \<open>min(ed_fake[rl][x68])\<close> when \<open>x68\<close> is
  not empty and \<open>-99\<close> otherwise. An index of \<open>x68\<close> beyond \<open>ed_fake[rl]\<close> raises
  IndexError.
\<close>

definition reach_index :: "npfloat list \<Rightarrow> real \<Rightarrow> nat list" where
  "reach_index frac_rec_sm thr =
     [i \<leftarrow> [0..<length frac_rec_sm]. np_ge (frac_rec_sm ! i) (Fin thr)]"

definition ed_reach :: "npfloat list \<Rightarrow> npfloat list \<Rightarrow> real \<Rightarrow> pyerror + npfloat" where
  "ed_reach ed_rl frac_rec_sm thr =
     (if 0 < length (reach_index frac_rec_sm thr)
      then (if list_all (\<lambda>i. i < length ed_rl) (reach_index frac_rec_sm thr)
            then Inr (py_min (map ((!) ed_rl) (reach_index frac_rec_sm thr)))
            else Inl IndexError)
      else Inr (Fin (- 99)))"

text \<open>
  The completeness block of \<open>RunLC\<close> for one segment, from what \<open>FakeFlares\<close> returned
  (\<open>ed_fake\<close>, the bin centres, and \<open>frac_rec\<close>, the recovered fraction of each bin, NaN
  for an empty bin). \<open>scipy.signal.wiener\<close> is a parameter.
\<close>

definition RunLC_completeness ::
  "(npfloat list \<Rightarrow> nat \<Rightarrow> npfloat list) \<Rightarrow> npfloat list \<Rightarrow> npfloat list
     \<Rightarrow> pyerror + npfloat \<times> npfloat" where
  "RunLC_completeness wiener ed_fake frac_rec =
     (let rl = map np_isfinite frac_rec;
          frac_rec_sm = wiener (np_mask rl frac_rec) 3
      in case ed_reach (np_mask rl ed_fake) frac_rec_sm (68 / 100) of
           Inl err \<Rightarrow> Inl err
         | Inr ed68_i \<Rightarrow>
             (case ed_reach (np_mask rl ed_fake) frac_rec_sm (90 / 100) of
                Inl err \<Rightarrow> Inl err
              | Inr ed90_i \<Rightarrow> Inr (ed68_i, ed90_i)))"

text \<open>
  One pass of the segment loop of \<open>RunLC\<close>. A segment is given by what \<open>MultiFind\<close>
  found in it (\<open>istart_i\<close>, \<open>istop_i\<close>), what \<open>FakeFlares\<close> returned for it and its
  offset \<open>dl[i]\<close>. With \<open>dofake\<close> false the fake-flare test is skipped and both
  thresholds are \<open>-199\<close>. The state is \<open>(istart, istop, ed68, ed90)\<close>.
\<close>

record segment =
  seg_istart :: "int list"
  seg_istop :: "int list"
  seg_ed_fake :: "npfloat list"
  seg_frac_rec :: "npfloat list"
  seg_dl :: int

definition RunLC_ed ::
  "(npfloat list \<Rightarrow> nat \<Rightarrow> npfloat list) \<Rightarrow> bool \<Rightarrow> segment
     \<Rightarrow> pyerror + npfloat \<times> npfloat" where
  "RunLC_ed wiener dofake g =
     (if dofake then RunLC_completeness wiener (seg_ed_fake g) (seg_frac_rec g)
      else Inr (Fin (- 199), Fin (- 199)))"

definition RunLC_step ::
  "(npfloat list \<Rightarrow> nat \<Rightarrow> npfloat list) \<Rightarrow> bool \<Rightarrow> segment
     \<Rightarrow> pyerror + int list \<times> int list \<times> npfloat list \<times> npfloat list
     \<Rightarrow> pyerror + int list \<times> int list \<times> npfloat list \<times> npfloat list" where
  "RunLC_step wiener dofake g st =
     (case st of
        Inl err \<Rightarrow> Inl err
      | Inr (istart, istop, ed68, ed90) \<Rightarrow>
          (case RunLC_ed wiener dofake g of
             Inl err \<Rightarrow> Inl err
           | Inr (ed68_i, ed90_i) \<Rightarrow>
               Inr (istart @ map (\<lambda>s. s + seg_dl g) (seg_istart g),
                    istop @ map (\<lambda>s. s + seg_dl g) (seg_istop g),
                    ed68 @ replicate (length (seg_istart g)) ed68_i,
                    ed90 @ replicate (length (seg_istart g)) ed90_i)))"

definition RunLC_segments ::
  "(npfloat list \<Rightarrow> nat \<Rightarrow> npfloat list) \<Rightarrow> bool \<Rightarrow> segment list
     \<Rightarrow> pyerror + int list \<times> int list \<times> npfloat list \<times> npfloat list" where
  "RunLC_segments wiener dofake segs =
     fold (RunLC_step wiener dofake) segs (Inr ([], [], [], []))"

text \<open>
  What the specification asks of a completeness threshold \<open>r\<close>, for the bin centres
  and the smoothed recovered fractions of the bins: when some bin reaches the threshold
  \<open>thr\<close>, \<open>r\<close> is the centre of a bin that reaches it and no bin that reaches it has a
  smaller centre; when no bin reaches it, \<open>r\<close> is the sentinel \<open>-99\<close>.
\<close>

definition min_reach :: "npfloat list \<Rightarrow> npfloat list \<Rightarrow> real \<Rightarrow> npfloat \<Rightarrow> bool" where
  "min_reach centres smooth thr r =
     (if list_ex (\<lambda>s. np_ge s (Fin thr)) smooth
      then list_ex (\<lambda>(c, s). np_ge s (Fin thr) \<and> r = c) (zip centres smooth)
           \<and> list_all (\<lambda>(c, s). np_ge s (Fin thr) \<longrightarrow> np_le r c) (zip centres smooth)
      else r = Fin (- 99))"

section \<open>FlareStats\<close>

text \<open>
  Library code that \<open>FlareStats\<close> calls and that the model takes as parameters:
  \<open>np.nanmedian\<close>, the least-squares solution inside \<open>np.polyfit\<close>, the optimiser
  inside \<open>scipy.optimize.curve_fit\<close> for the template \<open>aflare1\<close> (it returns the three
  fitted parameters or raises) and the statistic of \<open>scipy.stats.ks_2samp\<close>.
\<close>

record fitlib =
  fl_nanmedian :: "npfloat list \<Rightarrow> npfloat"
  polyfit_solve :: "npfloat list \<Rightarrow> npfloat list \<Rightarrow> nat \<Rightarrow> npfloat list"
  curve_fit ::
    "npfloat list \<Rightarrow> npfloat list \<Rightarrow> npfloat \<times> npfloat \<times> npfloat
       \<Rightarrow> pyerror + npfloat \<times> npfloat \<times> npfloat"
  ks_2samp_stat :: "npfloat list \<Rightarrow> npfloat list \<Rightarrow> npfloat \<times> npfloat"

text \<open>
  An elementwise operation on two one-dimensional arrays: the lengths are equal, or one
  of the arrays has a single element, which is then used throughout; any other pair of
  lengths raises ValueError.
\<close>

definition np_broadcast ::
  "('a \<Rightarrow> 'b \<Rightarrow> 'c) \<Rightarrow> 'a list \<Rightarrow> 'b list \<Rightarrow> pyerror + 'c list" where
  "np_broadcast f xs ys =
     (if length xs = length ys then Inr (map (\<lambda>(x, y). f x y) (zip xs ys))
      else if length ys = 1 then Inr (map (\<lambda>x. f x (hd ys)) xs)
      else if length xs = 1 then Inr (map (\<lambda>y. f (hd xs) y) ys)
      else Inl ValueError)"

text \<open>
  \<open>np.polyfit(x, y, deg)\<close> checks its arguments before it solves: an empty \<open>x\<close>, or
  \<open>x\<close> and \<open>y\<close> of different lengths, raise TypeError. The least-squares solve
  raises LinAlgError when an abscissa is NaN or infinite.
\<close>

definition np_polyfit ::
  "fitlib \<Rightarrow> npfloat list \<Rightarrow> npfloat list \<Rightarrow> nat \<Rightarrow> pyerror + npfloat list" where
  "np_polyfit L x y deg =
     (if x = [] then Inl TypeError
      else if length x \<noteq> length y then Inl TypeError
      else if \<not> list_all np_isfinite x then Inl LinAlgError
      else Inr (polyfit_solve L x y deg))"

text \<open>
  \<open>np.polyval(p, x)\<close>: Horner's scheme, \<open>y = y * x + pv\<close> for every coefficient, from
  zeros.
\<close>

definition np_polyval :: "npfloat list \<Rightarrow> npfloat list \<Rightarrow> npfloat list" where
  "np_polyval p x = map (\<lambda>xi. fold (\<lambda>pv y. np_add (np_mul y xi) pv) p (Fin 0)) x"

text \<open>
  \<open>np.max\<close>, \<open>np.min\<close> and \<open>np.argmax\<close>: a NaN wins, an empty array raises
  ValueError.
\<close>

definition np_maximum :: "npfloat \<Rightarrow> npfloat \<Rightarrow> npfloat" where
  "np_maximum a b = (if a = NaN then a else if b = NaN then b else if np_lt a b then b else a)"

definition np_minimum :: "npfloat \<Rightarrow> npfloat \<Rightarrow> npfloat" where
  "np_minimum a b = (if a = NaN then a else if b = NaN then b else if np_lt b a then b else a)"

definition np_max :: "npfloat list \<Rightarrow> pyerror + npfloat" where
  "np_max xs = (if xs = [] then Inl ValueError else Inr (fold (\<lambda>x m. np_maximum m x) (tl xs) (hd xs)))"

definition np_min :: "npfloat list \<Rightarrow> pyerror + npfloat" where
  "np_min xs = (if xs = [] then Inl ValueError else Inr (fold (\<lambda>x m. np_minimum m x) (tl xs) (hd xs)))"

definition np_argmax :: "npfloat list \<Rightarrow> pyerror + nat" where
  "np_argmax xs =
     (case np_max xs of
        Inl err \<Rightarrow> Inl err
      | Inr m \<Rightarrow> Inr (length (takeWhile (\<lambda>x. x \<noteq> m) xs)))"

text \<open>
  \<open>scipy.optimize.curve_fit(f, xdata, ydata, p0)\<close> with three parameters checks its
  arguments before it runs the optimiser: a NaN or an infinity in \<open>ydata\<close> or in
  \<open>xdata\<close>, or an empty \<open>ydata\<close>, raise ValueError; fewer data points than
  parameters raise TypeError.
\<close>

definition sp_curve_fit ::
  "fitlib \<Rightarrow> npfloat list \<Rightarrow> npfloat list \<Rightarrow> npfloat \<times> npfloat \<times> npfloat
     \<Rightarrow> pyerror + npfloat \<times> npfloat \<times> npfloat" where
  "sp_curve_fit L xdata ydata p0 =
     (if \<not> list_all np_isfinite ydata then Inl ValueError
      else if \<not> list_all np_isfinite xdata then Inl ValueError
      else if ydata = [] then Inl ValueError
      else if length ydata < 3 then Inl TypeError
      else curve_fit L xdata ydata p0)"

text \<open>
  \<open>scipy.stats.ks_2samp\<close> refuses an empty sample with ValueError.
\<close>

definition ks_2samp :: "fitlib \<Rightarrow> npfloat list \<Rightarrow> npfloat list \<Rightarrow> pyerror + npfloat \<times> npfloat" where
  "ks_2samp L a b = (if a = [] \<or> b = [] then Inl ValueError else Inr (ks_2samp_stat L a b))"

text \<open>
  Indexing with an array of integers, \<open>a[idx]\<close>: every index as in \<open>py_get\<close>.
\<close>

definition py_take :: "'a list \<Rightarrow> int list \<Rightarrow> pyerror + 'a list" where
  "py_take a idx =
     (if list_all (\<lambda>i. py_index (length a) i \<noteq> None) idx
      then Inr (map (\<lambda>i. a ! the (py_index (length a) i)) idx)
      else Inl IndexError)"

text \<open>
  \<open>chisq(data, error, model)\<close> of the source:
  \<open>np.sum(((data - model) / error)**2.0) / np.size(data)\<close>.
\<close>

definition np_sum :: "npfloat list \<Rightarrow> npfloat" where
  "np_sum xs = fold (\<lambda>x s. np_add s x) xs (Fin 0)"

definition chisq :: "npfloat list \<Rightarrow> npfloat list \<Rightarrow> npfloat list \<Rightarrow> pyerror + npfloat" where
  "chisq data error model =
     (case np_broadcast np_sub data model of
        Inl err \<Rightarrow> Inl err
      | Inr dm \<Rightarrow>
          (case np_broadcast np_div dm error of
             Inl err \<Rightarrow> Inl err
           | Inr quot \<Rightarrow>
               Inr (np_div (np_sum (map (\<lambda>q. np_mul q q) quot))
                      (Fin (real (length data))))))"

text \<open>
  \<open>EquivDur(time, flux)\<close>: \<open>np.trapz(flux, x=(time * 60.0 * 60.0 * 24.0))\<close>, the sum
  of \<open>d * (y[1:] + y[:-1]) / 2.0\<close> over the differences \<open>d\<close> of \<open>x\<close>.
\<close>

definition np_trapz :: "npfloat list \<Rightarrow> npfloat list \<Rightarrow> pyerror + npfloat" where
  "np_trapz y x =
     (case np_broadcast np_mul
             (map (\<lambda>i. np_sub (x ! (i + 1)) (x ! i)) [0..<length x - 1])
             (map (\<lambda>i. np_add (y ! (i + 1)) (y ! i)) [0..<length y - 1]) of
        Inl err \<Rightarrow> Inl err
      | Inr terms \<Rightarrow> Inr (np_sum (map (\<lambda>v. np_div v (Fin 2)) terms)))"

definition EquivDur :: "npfloat list \<Rightarrow> npfloat list \<Rightarrow> pyerror + npfloat" where
  "EquivDur time flux =
     np_trapz flux (map (\<lambda>t. np_mul (np_mul (np_mul t (Fin 60)) (Fin 60)) (Fin 24)) time)"

text \<open>
  The first block of \<open>FlareStats\<close>: the default start and stop, the widening of a
  zero-width candidate and the extension of a candidate of fewer than three samples.
\<close>

definition FlareStats_range :: "nat \<Rightarrow> int \<Rightarrow> int \<Rightarrow> int \<times> int" where
  "FlareStats_range n istart istop =
     (let istart1 = (if istart < 0 then 0 else istart);
          istop1 = (if istop < 0 then int n - 1 else istop);
          istart2 = (if istart1 = istop1 then istart1 - 1 else istart1);
          istop2 = (if istart1 = istop1 then istop1 + 1 else istop1);
          istop3 = (if istop2 - istart2 < 2 then istop2 + 1 else istop2)
      in (istart2, istop3))"

text \<open>
  A continuum window: \<open>np.where((time >= t0) & (time <= t1))\<close>.
\<close>

definition cont_window :: "npfloat list \<Rightarrow> npfloat \<Rightarrow> npfloat \<Rightarrow> nat list" where
  "cont_window time t0 t1 = [i \<leftarrow> [0..<length time]. np_ge (time ! i) t0 \<and> np_le (time ! i) t1]"

definition cont_c1 :: "npfloat list \<Rightarrow> npfloat \<Rightarrow> npfloat \<Rightarrow> nat list" where
  "cont_c1 time tstart tstop =
     cont_window time (np_sub tstart (np_sub tstop tstart))
       (np_sub tstart (np_div (np_sub tstop tstart) (Fin 2)))"

definition cont_c2 :: "npfloat list \<Rightarrow> npfloat \<Rightarrow> npfloat \<Rightarrow> nat list" where
  "cont_c2 time tstart tstop =
     cont_window time (np_add tstop (np_div (np_sub tstop tstart) (Fin 2)))
       (np_add tstop (np_sub tstop tstart))"

text \<open>
  The continuum indices and the degree of the continuum polynomial: the two windows
  joined, or, when both are empty, the first and the last index of the flare with
  degree 1.
\<close>

definition FlareStats_contindx ::
  "npfloat list \<Rightarrow> int \<Rightarrow> int \<Rightarrow> npfloat \<Rightarrow> npfloat \<Rightarrow> nat \<Rightarrow> int list \<times> nat" where
  "FlareStats_contindx time istart istop tstart tstop cpoly =
     (if length (cont_c1 time tstart tstop @ cont_c2 time tstart tstop) = 0
      then ([istart, istop], 1)
      else (map int (cont_c1 time tstart tstop @ cont_c2 time tstart tstop), cpoly))"

text \<open>
  What \<open>FlareStats\<close> has measured when it reaches the template fit; \<open>fm_resid\<close> is
  \<open>flareflux - contline\<close>.
\<close>

record flare_measure =
  fm_tstart :: npfloat
  fm_tstop :: npfloat
  fm_dur0 :: npfloat
  fm_flaretime :: "npfloat list"
  fm_flareflux :: "npfloat list"
  fm_modelflux :: "npfloat list"
  fm_flareerror :: "npfloat list"
  fm_contindx :: "int list"
  fm_cpoly :: nat
  fm_contflux :: "npfloat list"
  fm_conttime :: "npfloat list"
  fm_contfit :: "npfloat list"
  fm_contline :: "npfloat list"
  fm_resid :: "npfloat list"
  fm_medflux :: npfloat
  fm_ampl :: npfloat
  fm_tpeak :: npfloat
  fm_fwhm :: npfloat

text \<open>
  \<open>FlareStats\<close> up to the continuum fit, for the default \<open>c1\<close> and \<open>c2\<close>.
\<close>

definition FlareStats_baseline ::
  "fitlib \<Rightarrow> npfloat list \<Rightarrow> npfloat list \<Rightarrow> int \<Rightarrow> int \<Rightarrow> nat
     \<Rightarrow> pyerror + int \<times> int \<times> npfloat \<times> npfloat \<times> int list \<times> nat
                 \<times> npfloat list \<times> npfloat list \<times> npfloat list" where
  "FlareStats_baseline L time flux istart istop cpoly =
     (case py_get time (fst (FlareStats_range (length flux) istart istop)) of
        Inl err \<Rightarrow> Inl err
      | Inr tstart \<Rightarrow>
     (case py_get time (snd (FlareStats_range (length flux) istart istop)) of
        Inl err \<Rightarrow> Inl err
      | Inr tstop \<Rightarrow>
     (let a = fst (FlareStats_range (length flux) istart istop);
          b = snd (FlareStats_range (length flux) istart istop);
          contindx = fst (FlareStats_contindx time a b tstart tstop cpoly);
          cpoly' = snd (FlareStats_contindx time a b tstart tstop cpoly)
      in case py_take flux contindx of
           Inl err \<Rightarrow> Inl err
         | Inr contflux \<Rightarrow>
        (case py_take time contindx of
           Inl err \<Rightarrow> Inl err
         | Inr conttime \<Rightarrow>
        (case np_polyfit L conttime contflux cpoly' of
           Inl err \<Rightarrow> Inl err
         | Inr contfit \<Rightarrow>
             Inr (a, b, tstart, tstop, contindx, cpoly', contflux, conttime, contfit))))))"

text \<open>
  The full width at half maximum: over the samples at or below half the amplitude, or a
  quarter of the duration when there is none.
\<close>

definition FlareStats_fwhm ::
  "npfloat list \<Rightarrow> npfloat list \<Rightarrow> npfloat \<Rightarrow> npfloat \<Rightarrow> pyerror + npfloat" where
  "FlareStats_fwhm flaretime resid ampl dur0 =
     (let p05 = [i \<leftarrow> [0..<length resid]. np_le (resid ! i) (np_mul ampl (Fin (1 / 2)))]
      in if length p05 = 0 then Inr (np_mul dur0 (Fin (1 / 4)))
         else (case py_take flaretime (map int p05) of
                 Inl err \<Rightarrow> Inl err
               | Inr ts \<Rightarrow>
                   (case np_max ts of
                      Inl err \<Rightarrow> Inl err
                    | Inr hi \<Rightarrow>
                        (case np_min ts of
                           Inl err \<Rightarrow> Inl err
                         | Inr lo \<Rightarrow> Inr (np_sub hi lo)))))"

text \<open>
  \<open>FlareStats\<close> up to the template fit.
\<close>

definition FlareStats_measure ::
  "fitlib \<Rightarrow> npfloat list \<Rightarrow> npfloat list \<Rightarrow> npfloat list \<Rightarrow> npfloat list \<Rightarrow> int \<Rightarrow> int \<Rightarrow> nat
     \<Rightarrow> pyerror + flare_measure" where
  "FlareStats_measure L time flux error model istart istop cpoly =
     (case FlareStats_baseline L time flux istart istop cpoly of
        Inl err \<Rightarrow> Inl err
      | Inr (a, b, tstart, tstop, contindx, cpoly', contflux, conttime, contfit) \<Rightarrow>
     (case np_broadcast np_sub (py_slice flux a (b + 1))
             (np_polyval contfit (py_slice time a (b + 1))) of
        Inl err \<Rightarrow> Inl err
      | Inr resid \<Rightarrow>
     (case np_max resid of
        Inl err \<Rightarrow> Inl err
      | Inr peak \<Rightarrow>
     (case np_argmax resid of
        Inl err \<Rightarrow> Inl err
      | Inr k \<Rightarrow>
     (case py_get (py_slice time a (b + 1)) (int k) of
        Inl err \<Rightarrow> Inl err
      | Inr tpeak \<Rightarrow>
     (case FlareStats_fwhm (py_slice time a (b + 1)) resid
             (np_div peak (fl_nanmedian L model)) (np_sub tstop tstart) of
        Inl err \<Rightarrow> Inl err
      | Inr fwhm \<Rightarrow>
          Inr \<lparr>fm_tstart = tstart, fm_tstop = tstop, fm_dur0 = np_sub tstop tstart,
               fm_flaretime = py_slice time a (b + 1),
               fm_flareflux = py_slice flux a (b + 1),
               fm_modelflux = py_slice model a (b + 1),
               fm_flareerror = py_slice error a (b + 1),
               fm_contindx = contindx, fm_cpoly = cpoly',
               fm_contflux = contflux, fm_conttime = conttime,
               fm_contfit = contfit,
               fm_contline = np_polyval contfit (py_slice time a (b + 1)),
               fm_resid = resid,
               fm_medflux = fl_nanmedian L model,
               fm_ampl = np_div peak (fl_nanmedian L model),
               fm_tpeak = tpeak, fm_fwhm = fwhm\<rparr>))))))"

text \<open>
  The \<open>try\<close> block around \<open>curve_fit\<close>: a ValueError gives three NaN, a RuntimeError
  three times \<open>-99\<close>, any other exception is not caught.
\<close>

definition FlareStats_popt ::
  "pyerror + npfloat \<times> npfloat \<times> npfloat \<Rightarrow> pyerror + npfloat \<times> npfloat \<times> npfloat" where
  "FlareStats_popt outcome =
     (case outcome of
        Inr popt \<Rightarrow> Inr popt
      | Inl ValueError \<Rightarrow> Inr (NaN, NaN, NaN)
      | Inl RuntimeError \<Rightarrow> Inr (Fin (- 99), Fin (- 99), Fin (- 99))
      | Inl err \<Rightarrow> Inl err)"

text \<open>
  The call in the \<open>try\<close> block:
  \<open>curve_fit(aflare1, flaretime, (flareflux-contline) / medflux, p0=(tpeak, fwhm, ampl))\<close>.
\<close>

definition fit_call ::
  "fitlib \<Rightarrow> flare_measure \<Rightarrow> pyerror + npfloat \<times> npfloat \<times> npfloat" where
  "fit_call L m =
     sp_curve_fit L (fm_flaretime m) (map (\<lambda>r. np_div r (fm_medflux m)) (fm_resid m))
       (fm_tpeak m, fm_fwhm m, fm_ampl m)"

definition FlareStats_fit ::
  "fitlib \<Rightarrow> flare_measure \<Rightarrow> pyerror + npfloat \<times> npfloat \<times> npfloat" where
  "FlareStats_fit L m = FlareStats_popt (fit_call L m)"

text \<open>
  The statistics after the fit and the array \<open>params\<close> that \<open>FlareStats\<close> returns.
\<close>

definition FlareStats_params ::
  "fitlib \<Rightarrow> flare_measure \<Rightarrow> npfloat \<times> npfloat \<times> npfloat \<Rightarrow> pyerror + npfloat list" where
  "FlareStats_params L m popt1 =
     (case chisq (fm_flareflux m) (fm_flareerror m) (fm_modelflux m) of
        Inl err \<Rightarrow> Inl err
      | Inr flare_chisq \<Rightarrow>
     (case ks_2samp L (fm_flareflux m) (fm_modelflux m) of
        Inl err \<Rightarrow> Inl err
      | Inr ks \<Rightarrow>
     (case np_broadcast np_sub (fm_contflux m) (np_polyval (fm_contfit m) (fm_conttime m)) of
        Inl err \<Rightarrow> Inl err
      | Inr contres \<Rightarrow>
     (case ks_2samp L (fm_resid m) contres of
        Inl err \<Rightarrow> Inl err
      | Inr ksc \<Rightarrow>
     (case EquivDur (fm_flaretime m) (map (\<lambda>r. np_div r (fm_medflux m)) (fm_resid m)) of
        Inl err \<Rightarrow> Inl err
      | Inr ed \<Rightarrow>
          Inr [fm_tstart m, fm_tstop m, fm_tpeak m, fm_ampl m, fm_fwhm m, fm_dur0 m,
               fst popt1, fst (snd popt1), snd (snd popt1),
               flare_chisq, fst ks, snd ks, fst ksc, snd ksc, ed])))))"

definition FlareStats ::
  "fitlib \<Rightarrow> npfloat list \<Rightarrow> npfloat list \<Rightarrow> npfloat list \<Rightarrow> npfloat list \<Rightarrow> int \<Rightarrow> int \<Rightarrow> nat
     \<Rightarrow> pyerror + npfloat list" where
  "FlareStats L time flux error model istart istop cpoly =
     (case FlareStats_measure L time flux error model istart istop cpoly of
        Inl err \<Rightarrow> Inl err
      | Inr m \<Rightarrow>
          (case FlareStats_fit L m of
             Inl err \<Rightarrow> Inl err
           | Inr popt1 \<Rightarrow> FlareStats_params L m popt1))"

section \<open>Properties of FINDflare\<close>

lemma ConM_step_length [simp]: "length (ConM_step c k C) = length C"
  by (simp add: ConM_step_def Let_def)

lemma fold_ConM_length [simp]: "length (fold (ConM_step c) ks C) = length C"
  by (induction ks arbitrary: C) simp_all

lemma ConM_scan_length [simp]: "length (ConM_scan c) = length c"
  by (simp add: ConM_scan_def)

lemma ConM_step_nth:
  "j < length C \<Longrightarrow> ConM_step c k C ! j =
     (if j = length c - k
      then c ! (length c - k) * (C ! (length c - (k - 1)) + c ! (length c - k))
      else C ! j)"
  by (simp add: ConM_step_def Let_def)

lemma ConM_fold_char:
  assumes "2 \<le> m" "m \<le> length c" "j < length c"
  shows "fold (ConM_step c) [2..<m] (replicate (length c) 0) ! j =
           (if length c - m < j then cumrun (drop j (butlast c)) else 0)"
  using assms
proof (induction m arbitrary: j)
  case 0
  then show ?case by simp
next
  case (Suc m)
  let ?n = "length c"
  show ?case
  proof (cases "m < 2")
    case True
    with Suc.prems have m: "m = 1" by simp
    show ?thesis using Suc.prems m
      by (auto simp: numeral_2_eq_2)
  next
    case False
    then have m2: "2 \<le> m" by simp
    have mn: "m < ?n" using Suc.prems by simp
    let ?C = "fold (ConM_step c) [2..<m] (replicate ?n 0)"
    have IH: "\<And>i. i < ?n \<Longrightarrow> ?C ! i = (if ?n - m < i then cumrun (drop i (butlast c)) else 0)"
      using Suc.IH m2 mn by simp
    have upt: "[2..<Suc m] = [2..<m] @ [m]" using m2 by simp
    have step: "fold (ConM_step c) [2..<Suc m] (replicate ?n 0) = ConM_step c m ?C"
      using m2 by simp
    have idx: "?n - (m - 1) = Suc (?n - m)" using m2 mn by simp
    have lt1: "?n - m < length (butlast c)" using m2 mn by simp
    have dr: "drop (?n - m) (butlast c) = c ! (?n - m) # drop (Suc (?n - m)) (butlast c)"
      using lt1 by (metis Cons_nth_drop_Suc nth_butlast)
    have nxt: "?C ! Suc (?n - m) = cumrun (drop (Suc (?n - m)) (butlast c))"
      using IH[of "Suc (?n - m)"] m2 mn by simp
    have jn: "j < length ?C" using Suc.prems by simp
    show ?thesis
    proof (cases "j = ?n - m")
      case True
      have "ConM_step c m ?C ! j = c ! (?n - m) * (?C ! (?n - (m - 1)) + c ! (?n - m))"
        using ConM_step_nth[OF jn, of c m] True by simp
      also have "\<dots> = c ! (?n - m) * (cumrun (drop (Suc (?n - m)) (butlast c)) + c ! (?n - m))"
        by (simp only: idx nxt)
      also have "\<dots> = cumrun (drop (?n - m) (butlast c))"
        by (simp only: dr cumrun.simps)
      finally have "ConM_step c m ?C ! j = cumrun (drop j (butlast c))"
        using True by simp
      moreover have "?n - Suc m < j" using True m2 mn by simp
      ultimately show ?thesis by (simp only: step if_True)
    next
      case False
      then have "ConM_step c m ?C ! j = ?C ! j"
        using ConM_step_nth[OF jn, of c m] by simp
      moreover have "(?n - Suc m < j) = (?n - m < j)" using False m2 mn by auto
      ultimately show ?thesis using IH[of j] Suc.prems
        by (simp add: step)
    qed
  qed
qed

lemma ConM_scan_nth:
  assumes "j < length c"
  shows "ConM_scan c ! j = (if j = 0 then 0 else cumrun (drop j (butlast c)))"
proof (cases "2 \<le> length c")
  case True
  then show ?thesis using ConM_fold_char[of "length c" c j] assms
    by (auto simp: ConM_scan_def)
next
  case False
  then have "[2..<length c] = []" by simp
  then show ?thesis using assms False
    by (auto simp: ConM_scan_def)
qed


lemma cumrun_takeWhile:
  "set xs \<subseteq> {0, 1} \<Longrightarrow> cumrun xs = int (length (takeWhile (\<lambda>x. x = 1) xs))"
  by (induction xs) auto

lemma cumrun_nonneg: "set xs \<subseteq> {0, 1} \<Longrightarrow> 0 \<le> cumrun xs"
  by (simp add: cumrun_takeWhile)

lemma cumrun_le_length: "set xs \<subseteq> {0, 1} \<Longrightarrow> cumrun xs \<le> int (length xs)"
  by (simp add: cumrun_takeWhile length_takeWhile_le)

lemma cumrun_run:
  assumes "set xs \<subseteq> {0, 1}" "int i < cumrun xs"
  shows "i < length xs \<and> xs ! i = 1"
proof -
  have i: "i < length (takeWhile (\<lambda>x. x = 1) xs)"
    using assms by (simp add: cumrun_takeWhile)
  then have "takeWhile (\<lambda>x. x = 1) xs ! i \<in> set (takeWhile (\<lambda>x. x = 1) xs)"
    by (rule nth_mem)
  then have "takeWhile (\<lambda>x. x = 1) xs ! i = 1"
    by (rule set_takeWhileD[THEN conjunct2])
  moreover have "takeWhile (\<lambda>x. x = 1) xs ! i = xs ! i"
    using i by (rule takeWhile_nth)
  moreover have "i < length xs"
    using i length_takeWhile_le[of "\<lambda>x. x = 1" xs] by simp
  ultimately show ?thesis by simp
qed

lemma set_drop_butlast: "set c \<subseteq> A \<Longrightarrow> set (drop j (butlast c)) \<subseteq> A"
  by (meson in_set_butlastD in_set_dropD subset_iff)

lemma fold_set_one_length [simp]: "length (fold (\<lambda>i c. c[i := (1::int)]) is c) = length c"
  by (induction "is" arbitrary: c) simp_all

lemma fold_set_one_nth:
  "j < length c \<Longrightarrow>
     fold (\<lambda>i c. c[i := (1::int)]) is c ! j = (if j \<in> set is then 1 else c ! j)"
  by (induction "is" arbitrary: c) (auto simp: nth_list_update)

lemma cindx_length [simp]:
  "length (FINDflare_cindx L flux error N1 N2 avg_std std_window) = length flux"
  by (simp add: FINDflare_cindx_def)

lemma cindx_nth:
  "i < length flux \<Longrightarrow>
     FINDflare_cindx L flux error N1 N2 avg_std std_window ! i =
       (if i \<in> set (FINDflare_ctmp L flux error N1 N2 avg_std std_window) then 1 else 0)"
  by (simp add: FINDflare_cindx_def fold_set_one_nth)

lemma cindx_binary:
  "set (FINDflare_cindx L flux error N1 N2 avg_std std_window) \<subseteq> {0, 1}"
proof
  fix x assume "x \<in> set (FINDflare_cindx L flux error N1 N2 avg_std std_window)"
  then obtain i where "i < length flux"
    "x = FINDflare_cindx L flux error N1 N2 avg_std std_window ! i"
    by (auto simp: in_set_conv_nth)
  then show "x \<in> {0, 1}" by (simp add: cindx_nth)
qed

lemma zip_map_same: "zip (map f xs) (map g xs) = map (\<lambda>x. (f x, g x)) xs"
  by (induction xs) simp_all

lemma runs_pairs:
  assumes "FINDflare_runs c N3 = (istart, istop)" "(s, e) \<in> set (zip istart istop)"
  shows "\<exists>p \<in> set (FINDflare_istart (ConM_scan c) N3).
           s = int p \<and> e = int p + (ConM_scan c ! p - 1)"
  using assms by (auto simp: FINDflare_runs_def Let_def zip_map_same)

lemma istart_mem:
  "p \<in> set (FINDflare_istart C N3) \<longleftrightarrow>
     (1 \<le> p \<and> p < length C \<and> N3 \<le> C ! p \<and> C ! (p - 1) < C ! p)"
proof
  assume "p \<in> set (FINDflare_istart C N3)"
  then show "1 \<le> p \<and> p < length C \<and> N3 \<le> C ! p \<and> C ! (p - 1) < C ! p"
    by (auto simp: FINDflare_istart_def)
next
  assume a: "1 \<le> p \<and> p < length C \<and> N3 \<le> C ! p \<and> C ! (p - 1) < C ! p"
  then have "p - 1 < length C - 1" "p = (p - 1) + 1" by auto
  with a show "p \<in> set (FINDflare_istart C N3)"
    unfolding FINDflare_istart_def by (auto intro!: bexI[of _ "p - 1"])
qed

lemma ConM_run_positive:
  assumes b: "set c \<subseteq> {0, 1}" and p: "p \<in> set (FINDflare_istart (ConM_scan c) N3)"
  shows "1 \<le> ConM_scan c ! p"
proof -
  from p have p1: "1 \<le> p" "p < length c" "ConM_scan c ! (p - 1) < ConM_scan c ! p"
    by (auto simp: istart_mem)
  have "0 \<le> ConM_scan c ! (p - 1)"
    using p1 b by (simp add: ConM_scan_nth cumrun_nonneg set_drop_butlast)
  with p1 show ?thesis by simp
qed

lemma ConM_run_bound:
  assumes b: "set c \<subseteq> {0, 1}" and p: "1 \<le> p" "p < length c"
  shows "int p + ConM_scan c ! p \<le> int (length c) - 1"
proof -
  have "ConM_scan c ! p = cumrun (drop p (butlast c))"
    using p by (simp add: ConM_scan_nth)
  moreover have "cumrun (drop p (butlast c)) \<le> int (length (drop p (butlast c)))"
    using b by (intro cumrun_le_length set_drop_butlast)
  ultimately show ?thesis using p by simp
qed

lemma ConM_first_zero: "0 < length c \<Longrightarrow> ConM_scan c ! 0 = 0"
  by (simp add: ConM_scan_nth)

lemma ConM_last_zero: "0 < length c \<Longrightarrow> ConM_scan c ! (length c - 1) = 0"
  by (simp add: ConM_scan_nth)

lemma runs_zip:
  "FINDflare_runs c N3 = (istart, istop) \<Longrightarrow>
     zip istart istop =
       map (\<lambda>p. (int p, int p + (ConM_scan c ! p - 1))) (FINDflare_istart (ConM_scan c) N3)"
  by (auto simp: FINDflare_runs_def Let_def zip_map_same)

lemma ConM_second:
  assumes b: "set c \<subseteq> {0, 1}" and n: "2 \<le> length c"
  shows "ConM_scan c ! 1 = int (length (takeWhile (\<lambda>x. x = 1) (drop 1 (butlast c))))"
proof -
  from n have "1 < length c" by linarith
  then have "ConM_scan c ! 1 = cumrun (drop 1 (butlast c))"
    using ConM_scan_nth[of 1 c] by simp
  also have "\<dots> = int (length (takeWhile (\<lambda>x. x = 1) (drop 1 (butlast c))))"
    using b by (intro cumrun_takeWhile set_drop_butlast)
  finally show ?thesis .
qed

lemma first_event:
  assumes b: "set c \<subseteq> {0, 1}" and n: "2 \<le> length c"
    and r: "FINDflare_runs c N3 = (istart, istop)"
  shows "((1, e) \<in> set (zip istart istop)) =
           (e = int (length (takeWhile (\<lambda>x. x = 1) (drop 1 (butlast c))))
            \<and> N3 \<le> int (length (takeWhile (\<lambda>x. x = 1) (drop 1 (butlast c))))
            \<and> 1 \<le> length (takeWhile (\<lambda>x. x = 1) (drop 1 (butlast c))))"
proof -
  let ?C = "ConM_scan c"
  let ?K = "length (takeWhile (\<lambda>x. x = 1) (drop 1 (butlast c)))"
  from n have pos: "0 < length c" by linarith
  have c0: "?C ! 0 = 0" using pos by (rule ConM_first_zero)
  have c1: "?C ! 1 = int ?K" using b n by (rule ConM_second)
  have l1: "1 < length ?C" using n by simp
  have "(1 \<in> set (FINDflare_istart ?C N3)) =
          (1 \<le> (1::nat) \<and> 1 < length ?C \<and> N3 \<le> ?C ! 1 \<and> ?C ! (1 - 1) < ?C ! 1)"
    by (rule istart_mem)
  also have "\<dots> = (N3 \<le> int ?K \<and> 0 < int ?K)"
    using l1 by (simp only: c0 c1 diff_self_eq_0 le_refl simp_thms)
  also have "\<dots> = (N3 \<le> int ?K \<and> 1 \<le> ?K)" by linarith
  finally have mem: "(1 \<in> set (FINDflare_istart ?C N3)) = (N3 \<le> int ?K \<and> 1 \<le> ?K)" .
  have "((1, e) \<in> set (zip istart istop)) =
          (\<exists>p \<in> set (FINDflare_istart ?C N3). int p = 1 \<and> e = int p + (?C ! p - 1))"
    unfolding runs_zip[OF r] by auto
  also have "\<dots> = (1 \<in> set (FINDflare_istart ?C N3) \<and> e = ?C ! 1)"
    by auto
  also have "\<dots> = (e = int ?K \<and> N3 \<le> int ?K \<and> 1 \<le> ?K)"
    unfolding mem c1 by auto
  finally show ?thesis .
qed

text \<open>
  Claim C10, as the code has it. For every input flux of length \<open>n \<ge> 2\<close>, every pair
  \<open>(start, stop)\<close> that \<open>FINDflare\<close> returns has \<open>start \<ge> 1\<close> and \<open>stop \<le> n - 2\<close>:
  the backward scan leaves the run count at index \<open>0\<close> and at index \<open>n - 1\<close> at zero.
  The first sample is not looked at: an event with start \<open>1\<close> is reported exactly when
  the flagged samples that follow one another from index \<open>1\<close> on, the last sample left
  out, number at least \<open>N3\<close> and at least one, and its stop is that number. So a run that
  begins at the first sample is reported without its first sample when the rest of it
  still has \<open>N3\<close> samples.
\<close>

theorem FINDflare_event_bounds:
  assumes n: "2 \<le> length flux"
    and r: "FINDflare L flux error N1 N2 N3 avg_std std_window = (istart, istop)"
  shows "(\<forall>(s, e) \<in> set (zip istart istop). 1 \<le> s \<and> e \<le> int (length flux) - 2)
       \<and> ConM_scan (FINDflare_cindx L flux error N1 N2 avg_std std_window) ! 0 = 0
       \<and> ConM_scan (FINDflare_cindx L flux error N1 N2 avg_std std_window) ! (length flux - 1) = 0
       \<and> ((1, e1) \<in> set (zip istart istop)) =
           (e1 = int (length (takeWhile (\<lambda>x. x = 1)
                   (drop 1 (butlast (FINDflare_cindx L flux error N1 N2 avg_std std_window)))))
            \<and> N3 \<le> int (length (takeWhile (\<lambda>x. x = 1)
                   (drop 1 (butlast (FINDflare_cindx L flux error N1 N2 avg_std std_window)))))
            \<and> 1 \<le> length (takeWhile (\<lambda>x. x = 1)
                   (drop 1 (butlast (FINDflare_cindx L flux error N1 N2 avg_std std_window)))))"
proof -
  let ?c = "FINDflare_cindx L flux error N1 N2 avg_std std_window"
  have b: "set ?c \<subseteq> {0, 1}" by (rule cindx_binary)
  have len: "length ?c = length flux" by simp
  have pos: "0 < length ?c" using n by (simp only: len)
  have n': "2 \<le> length ?c" using n by (simp only: len)
  have r': "FINDflare_runs ?c N3 = (istart, istop)" using r by (simp add: FINDflare_def)
  have "1 \<le> s \<and> e \<le> int (length flux) - 2" if "(s, e) \<in> set (zip istart istop)" for s e
  proof -
    from r that obtain p where p: "p \<in> set (FINDflare_istart (ConM_scan ?c) N3)"
      and se: "s = int p" "e = int p + (ConM_scan ?c ! p - 1)"
      using runs_pairs[of ?c N3 istart istop s e] by (auto simp: FINDflare_def)
    from p have p1: "1 \<le> p" "p < length ?c" by (auto simp: istart_mem)
    from ConM_run_bound[OF b p1] se p1 show ?thesis by (simp add: len)
  qed
  moreover have "ConM_scan ?c ! 0 = 0" using pos by (rule ConM_first_zero)
  moreover have "ConM_scan ?c ! (length flux - 1) = 0"
    using ConM_last_zero[OF pos] by (simp only: len)
  moreover note first_event[OF b n' r', of e1]
  ultimately show ?thesis by blast
qed

theorem FINDflare_event_bounds_witness:
  "2 \<le> length (replicate 4 (Fin 10) @ replicate 32 (Fin 0) @ replicate 4 (Fin 10))
   \<and> FINDflare_cindx
         \<lparr>nanmedian = (\<lambda>xs. Fin 0), nanstd = (\<lambda>xs. Fin 4), rolling_std = (\<lambda>w xs. xs)\<rparr>
         (replicate 4 (Fin 10) @ replicate 32 (Fin 0) @ replicate 4 (Fin 10))
         (replicate 40 (Fin 0)) 2 1 False 7
       = replicate 4 1 @ replicate 32 0 @ replicate 4 1
   \<and> FINDflare
         \<lparr>nanmedian = (\<lambda>xs. Fin 0), nanstd = (\<lambda>xs. Fin 4), rolling_std = (\<lambda>w xs. xs)\<rparr>
         (replicate 4 (Fin 10) @ replicate 32 (Fin 0) @ replicate 4 (Fin 10))
         (replicate 40 (Fin 0)) 2 1 3 False 7 = ([1, 36], [3, 38])
   \<and> 1 \<le> (1::int) \<and> (3::int) \<le> int 40 - 2 \<and> 1 \<le> (36::int) \<and> (38::int) \<le> int 40 - 2
   \<and> (1, 3) \<in> set (zip [1, 36] [3, 38 :: int])
   \<and> length (takeWhile (\<lambda>x. x = 1)
        (drop 1 (butlast (replicate 4 1 @ replicate 32 0 @ replicate 4 (1::int))))) = 3"
proof -
  let ?L = "\<lparr>nanmedian = (\<lambda>xs. Fin 0), nanstd = (\<lambda>xs. Fin 4), rolling_std = (\<lambda>w xs. xs)\<rparr>"
  let ?flux = "replicate 4 (Fin 10) @ replicate 32 (Fin 0) @ replicate 4 (Fin 10)"
  have n: "2 \<le> length ?flux" by simp
  have c: "FINDflare_cindx ?L ?flux (replicate 40 (Fin 0)) 2 1 False 7
             = replicate 4 1 @ replicate 32 0 @ replicate 4 1" by code_simp
  have r: "FINDflare ?L ?flux (replicate 40 (Fin 0)) 2 1 3 False 7 = ([1, 36], [3, 38])"
    by code_simp
  have k: "length (takeWhile (\<lambda>x. x = 1)
        (drop 1 (butlast (replicate 4 1 @ replicate 32 0 @ replicate 4 (1::int))))) = 3"
    by code_simp
  from FINDflare_event_bounds[OF n r, of 3] n c r k show ?thesis by simp
qed

text \<open>
  Claim C10 as stated fails in its clause on the first sample. Forty samples, the first
  four at 10 and the others at 0 (median 0, standard deviation 3, errors zero), with
  \<open>N1 = 3\<close>, \<open>N2 = 1\<close>, \<open>N3 = 3\<close>: exactly the first four samples pass the three cuts, a
  run that begins at the first sample and has \<open>4 \<ge> N3\<close> samples, and \<open>FINDflare\<close> reports
  it, as the range from index 1 to index 3.
\<close>

theorem FINDflare_run_at_first_sample_reported:
  "FINDflare_cindx
       \<lparr>nanmedian = (\<lambda>xs. Fin 0), nanstd = (\<lambda>xs. Fin 3), rolling_std = (\<lambda>w xs. xs)\<rparr>
       (replicate 4 (Fin 10) @ replicate 36 (Fin 0)) (replicate 40 (Fin 0)) 3 1 False 7
     = replicate 4 1 @ replicate 36 0
   \<and> FINDflare
       \<lparr>nanmedian = (\<lambda>xs. Fin 0), nanstd = (\<lambda>xs. Fin 3), rolling_std = (\<lambda>w xs. xs)\<rparr>
       (replicate 4 (Fin 10) @ replicate 36 (Fin 0)) (replicate 40 (Fin 0)) 3 1 3 False 7
     = ([1], [3])"
  by code_simp

text \<open>
  Claim C1, on the claim's own flagged sequence with \<open>N3 = 3\<close>: the run detection of
  \<open>FINDflare\<close> reports the ranges \<open>[1, 3]\<close> and \<open>[9, 11]\<close>. The last sample (index 12)
  is flagged and belongs to the run that starts at 9, but the scan never counts it.
  And on a signal of thirty samples, zero but for the value 10 at the last three
  (median 0, standard deviation 3, errors zero), exactly the last three samples pass
  the three cuts, a maximal run of length \<open>3 = N3\<close>, and \<open>FINDflare\<close> reports no event.
\<close>

theorem FINDflare_runs_spec_scenario:
  "FINDflare_runs [0, 1, 1, 1, 0, 1, 1, 0, 0, 1, 1, 1, 1] 3 = ([1, 9], [3, 11])
   \<and> FINDflare_cindx
         \<lparr>nanmedian = (\<lambda>xs. Fin 0), nanstd = (\<lambda>xs. Fin 3), rolling_std = (\<lambda>w xs. xs)\<rparr>
         (replicate 27 (Fin 0) @ [Fin 10, Fin 10, Fin 10]) (replicate 30 (Fin 0)) 3 1 False 7
       = replicate 27 0 @ [1, 1, 1]
   \<and> FINDflare
         \<lparr>nanmedian = (\<lambda>xs. Fin 0), nanstd = (\<lambda>xs. Fin 3), rolling_std = (\<lambda>w xs. xs)\<rparr>
         (replicate 27 (Fin 0) @ [Fin 10, Fin 10, Fin 10]) (replicate 30 (Fin 0)) 3 1 3 False 7
       = ([], [])"
  by code_simp

text \<open>
  Claim C2. For every input flux and error array (of equal length) and every sample
  index \<open>i\<close>, \<open>FINDflare\<close> flags sample \<open>i\<close> (\<open>cindx[i] = 1\<close>) if and only if
  the three cuts hold: the residual \<open>flux[i] - nanmedian(flux)\<close> is positive, its
  absolute value over sigma exceeds \<open>N1\<close>, and the absolute value of the residual
  minus \<open>error[i]\<close> over sigma exceeds \<open>N2\<close>. Sigma is the standard deviation of the
  signal handed in, or with \<open>avg_std\<close> the median of its rolling standard deviation
  over \<open>std_window\<close> samples.
\<close>

theorem FINDflare_flags_iff_three_cuts:
  assumes i: "i < length flux" and len: "length error = length flux"
  shows "(FINDflare_cindx L flux error N1 N2 avg_std std_window ! i = 1) =
           (np_gt (np_sub (flux ! i) (nanmedian L flux)) (Fin 0)
            \<and> np_gt (np_div (np_abs (np_sub (flux ! i) (nanmedian L flux)))
                   (if avg_std then nanmedian L (rolling_std L std_window flux)
                    else nanstd L flux)) (Fin N1)
            \<and> np_gt (np_div (np_abs (np_sub (np_sub (flux ! i) (nanmedian L flux)) (error ! i)))
                   (if avg_std then nanmedian L (rolling_std L std_window flux)
                    else nanstd L flux)) (Fin N2))"
proof -
  have ca: "FINDflare_ca L flux ! i = np_sub (flux ! i) (nanmedian L flux)"
    using i by (simp add: FINDflare_ca_def)
  have sg: "FINDflare_sig L flux avg_std std_window =
              (if avg_std then nanmedian L (rolling_std L std_window flux) else nanstd L flux)"
    by (simp add: FINDflare_sig_def)
  have cb: "FINDflare_cb L flux avg_std std_window ! i =
              np_div (np_abs (np_sub (flux ! i) (nanmedian L flux)))
                (FINDflare_sig L flux avg_std std_window)"
    using i by (simp add: FINDflare_cb_def)
  have cc: "FINDflare_cc L flux error avg_std std_window ! i =
              np_div (np_abs (np_sub (np_sub (flux ! i) (nanmedian L flux)) (error ! i)))
                (FINDflare_sig L flux avg_std std_window)"
    using i len by (simp add: FINDflare_cc_def)
  have mem: "i \<in> set (FINDflare_ctmp L flux error N1 N2 avg_std std_window) \<longleftrightarrow>
               np_gt (FINDflare_ca L flux ! i) (Fin 0)
               \<and> np_gt (FINDflare_cb L flux avg_std std_window ! i) (Fin N1)
               \<and> np_gt (FINDflare_cc L flux error avg_std std_window ! i) (Fin N2)"
    using i by (simp add: FINDflare_ctmp_def)
  have "(FINDflare_cindx L flux error N1 N2 avg_std std_window ! i = 1) =
          (i \<in> set (FINDflare_ctmp L flux error N1 N2 avg_std std_window))"
    using i by (simp add: cindx_nth)
  then show ?thesis
    by (simp only: mem ca cb cc sg)
qed

theorem FINDflare_flags_iff_three_cuts_witness:
  "(10::nat) < length (replicate 10 (Fin 0) @ [Fin 10, Fin 10, Fin 10] @ replicate 17 (Fin 0))
   \<and> length (replicate 30 (Fin 0)) =
       length (replicate 10 (Fin 0) @ [Fin 10, Fin 10, Fin 10] @ replicate 17 (Fin 0))
   \<and> FINDflare_cindx
         \<lparr>nanmedian = (\<lambda>xs. Fin 0), nanstd = (\<lambda>xs. Fin 3), rolling_std = (\<lambda>w xs. xs)\<rparr>
         (replicate 10 (Fin 0) @ [Fin 10, Fin 10, Fin 10] @ replicate 17 (Fin 0))
         (replicate 30 (Fin 0)) 3 1 False 7 ! 10 = 1
   \<and> np_gt (np_sub (Fin 10) (Fin 0)) (Fin 0)
   \<and> np_gt (np_div (np_abs (np_sub (Fin 10) (Fin 0))) (Fin 3)) (Fin 3)
   \<and> np_gt (np_div (np_abs (np_sub (np_sub (Fin 10) (Fin 0)) (Fin 0))) (Fin 3)) (Fin 1)"
proof -
  let ?L = "\<lparr>nanmedian = (\<lambda>xs. Fin 0), nanstd = (\<lambda>xs. Fin 3), rolling_std = (\<lambda>w xs. xs)\<rparr>"
  let ?flux = "replicate 10 (Fin 0) @ [Fin 10, Fin 10, Fin 10] @ replicate 17 (Fin 0)"
  let ?err = "replicate 30 (Fin (0::real))"
  have i: "(10::nat) < length ?flux" by simp
  have len: "length ?err = length ?flux" by simp
  have f: "?flux ! 10 = Fin 10" by (simp add: nth_append)
  have e: "?err ! 10 = Fin 0" by simp
  have cuts: "np_gt (np_sub (Fin 10) (Fin 0)) (Fin 0)
     \<and> np_gt (np_div (np_abs (np_sub (Fin 10) (Fin 0))) (Fin 3)) (Fin 3)
     \<and> np_gt (np_div (np_abs (np_sub (np_sub (Fin 10) (Fin 0)) (Fin 0))) (Fin 3)) (Fin 1)"
    by (simp add: np_gt_def np_sub_def)
  have "FINDflare_cindx ?L ?flux ?err 3 1 False 7 ! 10 = 1"
    using FINDflare_flags_iff_three_cuts[OF i len, of ?L 3 1 False 7] cuts
    by (simp only: f e statlib.simps if_False) 
  with i len cuts show ?thesis by blast
qed

lemma comprehension_map_filter: "[f x. x \<leftarrow> xs, P x] = map f (filter P xs)"
  by (induction xs) simp_all

lemma istart_as_filter:
  "FINDflare_istart C N3 =
     map Suc (filter (\<lambda>j. N3 \<le> C ! (j + 1) \<and> C ! j - C ! (j + 1) < 0) [0..<length C - 1])"
  unfolding FINDflare_istart_def by (simp add: comprehension_map_filter)

lemma istart_strict_sorted: "sorted_wrt (<) (FINDflare_istart C N3)"
  by (simp add: istart_as_filter sorted_wrt_map sorted_wrt_filter strict_sorted_iff[symmetric])

lemma run_ends_before_next_start:
  assumes b: "set c \<subseteq> {0, 1}"
    and p: "p \<in> set (FINDflare_istart (ConM_scan c) N3)"
    and p': "p' \<in> set (FINDflare_istart (ConM_scan c) N3)"
    and lt: "p < p'"
  shows "int p + (ConM_scan c ! p - 1) + 2 \<le> int p'"
proof -
  let ?C = "ConM_scan c"
  from lt obtain j where j: "p' = Suc j" by (cases p') auto
  from p have p1: "1 \<le> p" "p < length c" by (auto simp: istart_mem)
  from p' have q1: "p' < length c" "?C ! j < ?C ! p'" by (auto simp: istart_mem j)
  have j1: "j \<noteq> 0" "j < length c" "j < length (butlast c)" "p \<le> j"
    using p1 q1 lt j by auto
  have cj: "?C ! j = cumrun (drop j (butlast c))"
    using ConM_scan_nth[OF j1(2)] j1(1) by (simp only: if_False)
  have cp': "?C ! p' = cumrun (drop p' (butlast c))"
    using ConM_scan_nth[OF q1(1)] j by simp
  have dr: "drop j (butlast c) = butlast c ! j # drop p' (butlast c)"
    using j1(3) j by (metis Cons_nth_drop_Suc)
  have "butlast c ! j \<in> set c"
    using j1(3) by (meson in_set_butlastD nth_mem)
  with b have bj: "butlast c ! j = 0 \<or> butlast c ! j = 1" by auto
  have zero: "butlast c ! j = 0"
  proof (rule ccontr)
    assume "butlast c ! j \<noteq> 0"
    with bj have one: "butlast c ! j = 1" by simp
    have "?C ! j = ?C ! p' + 1"
      by (simp only: cj cp' dr cumrun.simps one) simp
    with q1 show False by simp
  qed
  have cp: "?C ! p = cumrun (drop p (butlast c))"
    using ConM_scan_nth[OF p1(2)] p1(1) by simp
  have "\<not> int (j - p) < cumrun (drop p (butlast c))"
  proof
    assume "int (j - p) < cumrun (drop p (butlast c))"
    from cumrun_run[OF set_drop_butlast[OF b] this]
    have "drop p (butlast c) ! (j - p) = 1" by simp
    then have "butlast c ! j = 1" using j1 by simp
    with zero show False by simp
  qed
  then have "int p + ?C ! p \<le> int j" using j1 by (simp add: cp)
  then show ?thesis using j by linarith
qed

lemma FINDflare_runs_events:
  "FINDflare_runs c N3 = (istart, istop) \<Longrightarrow>
     zip istart istop =
       map (\<lambda>p. (int p, int p + (ConM_scan c ! p - 1))) (FINDflare_istart (ConM_scan c) N3)"
  by (auto simp: FINDflare_runs_def Let_def zip_map_same)

lemma FINDflare_runs_ordered:
  assumes b: "set c \<subseteq> {0, 1}" and r: "FINDflare_runs c N3 = (istart, istop)"
  shows "list_all (\<lambda>(s, e). s \<le> e) (zip istart istop)"
    and "sorted_wrt (\<lambda>(s, e) (s', e'). s < s' \<and> e + 2 \<le> s') (zip istart istop)"
proof -
  let ?S = "FINDflare_istart (ConM_scan c) N3"
  let ?f = "\<lambda>p. (int p, int p + (ConM_scan c ! p - 1))"
  have z: "zip istart istop = map ?f ?S" using r by (rule FINDflare_runs_events)
  show "list_all (\<lambda>(s, e). s \<le> e) (zip istart istop)"
    using ConM_run_positive[OF b, of _ N3] by (fastforce simp: z list_all_iff)
  have "sorted_wrt (\<lambda>p p'. p < p' \<and> int p + (ConM_scan c ! p - 1) + 2 \<le> int p') ?S"
    using istart_strict_sorted[of "ConM_scan c" N3]
    by (rule sorted_wrt_mono_rel[rotated]) (use run_ends_before_next_start[OF b] in auto)
  then show "sorted_wrt (\<lambda>(s, e) (s', e'). s < s' \<and> e + 2 \<le> s') (zip istart istop)"
    by (simp add: z sorted_wrt_map)
qed

section \<open>Properties of MultiFind\<close>

lemma np_delete_sublist:
  assumes "np_delete arr obj = Inr res" "sorted_wrt (<) (arr :: nat list)"
  shows "sorted_wrt (<) res \<and> set res \<subseteq> set arr"
proof -
  from assms(1) have res: "res = map ((!) arr) (filter (\<lambda>k. k \<notin> set obj) [0..<length arr])"
    by (auto simp: np_delete_def comprehension_map_filter split: if_splits)
  have "sorted_wrt (\<lambda>a b. arr ! a < arr ! b) (filter (\<lambda>k. k \<notin> set obj) [0..<length arr])"
  proof (rule sorted_wrt_mono_rel[where P = "(<)"])
    show "sorted_wrt (<) (filter (\<lambda>k. k \<notin> set obj) [0..<length arr])"
      by (simp add: sorted_wrt_filter strict_sorted_iff[symmetric])
  next
    fix x y
    assume "x \<in> set (filter (\<lambda>k. k \<notin> set obj) [0..<length arr])"
      "y \<in> set (filter (\<lambda>k. k \<notin> set obj) [0..<length arr])" "x < y"
    then show "arr ! x < arr ! y"
      using assms(2) by (auto simp: sorted_wrt_iff_nth_less)
  qed
  then have "sorted_wrt (<) res" by (simp add: res sorted_wrt_map)
  moreover have "set res \<subseteq> set arr" by (auto simp: res)
  ultimately show ?thesis by simp
qed

lemma cand1_sorted: "sorted_wrt (<) (MultiFind_cand1 bad isflare)"
  by (simp add: MultiFind_cand1_def sorted_wrt_filter strict_sorted_iff[symmetric])

lemma cand1_mem:
  "i \<in> set (MultiFind_cand1 bad isflare) \<longleftrightarrow> i < length bad \<and> bad ! i < 1 \<and> 0 < isflare ! i"
  by (auto simp: MultiFind_cand1_def)

lemma MultiFind_edges_sublist:
  assumes "MultiFind_edges time c gapwindow = Inr res" "sorted_wrt (<) c"
  shows "sorted_wrt (<) res \<and> set res \<subseteq> set c"
proof -
  from assms(1) obtain tl tf c1 where
    d1: "np_delete c (near_edge time c tl gapwindow) = Inr c1" and
    d2: "np_delete c1 (near_edge time c tf gapwindow) = Inr res"
    by (auto simp: MultiFind_edges_def split: sum.splits)
  from np_delete_sublist[OF d1 assms(2)] have "sorted_wrt (<) c1" "set c1 \<subseteq> set c" by auto
  with np_delete_sublist[OF d2] show ?thesis by auto
qed

lemma breaks_sorted: "sorted_wrt (<) (MultiFind_breaks c minsep)"
  by (simp add: MultiFind_breaks_def sorted_wrt_filter strict_sorted_iff[symmetric])

lemma breaks_mem:
  "k \<in> set (MultiFind_breaks c minsep) \<longleftrightarrow>
     k < length c - 1 \<and> minsep < int (c ! (k + 1)) - int (c ! k)"
  by (auto simp: MultiFind_breaks_def)


lemma strict_sorted_nth_mono:
  "sorted_wrt (<) (c :: nat list) \<Longrightarrow> a \<le> b \<Longrightarrow> b < length c \<Longrightarrow> c ! a \<le> c ! b"
  by (cases "a = b") (auto simp: sorted_wrt_iff_nth_less le_less)

lemma group_nth:
  assumes ne: "c \<noteq> []" and g: "MultiFind_group c minsep = (istart, istop)"
  shows "length istart = Suc (length (MultiFind_breaks c minsep))"
    and "length istop = Suc (length (MultiFind_breaks c minsep))"
    and "\<And>j. j \<le> length (MultiFind_breaks c minsep) \<Longrightarrow>
           istart ! j = int (c ! (if j = 0 then 0 else Suc (MultiFind_breaks c minsep ! (j - 1))))"
    and "\<And>j. j \<le> length (MultiFind_breaks c minsep) \<Longrightarrow>
           istop ! j = int (c ! (if j < length (MultiFind_breaks c minsep)
                                 then MultiFind_breaks c minsep ! j else length c - 1))"
proof -
  let ?G = "MultiFind_breaks c minsep"
  have n: "\<not> length c < 1" using ne by (cases c) auto
  have s: "istart = map (\<lambda>k. int (c ! k)) (0 # map Suc ?G)"
    and e: "istop = map (\<lambda>k. int (c ! k)) (?G @ [length c - 1])"
    using g n by (auto simp: MultiFind_group_def)
  show "length istart = Suc (length ?G)" by (simp add: s)
  show "length istop = Suc (length ?G)" by (simp add: e)
  show "istart ! j = int (c ! (if j = 0 then 0 else Suc (?G ! (j - 1))))"
    if "j \<le> length ?G" for j
    using that by (cases j) (simp_all add: s)
  show "istop ! j = int (c ! (if j < length ?G then ?G ! j else length c - 1))"
    if "j \<le> length ?G" for j
    using that by (simp add: e nth_append)
qed

lemma bump_nth:
  "length istart = length istop \<Longrightarrow> j < length istop \<Longrightarrow>
     MultiFind_bump istart istop ! j =
       (if istart ! j - istop ! j = 0 then istop ! j + 1 else istop ! j)"
  by (simp add: MultiFind_bump_def)

lemma bump_length [simp]:
  "length (MultiFind_bump istart istop) = min (length istart) (length istop)"
  by (simp add: MultiFind_bump_def)

lemma group_events:
  assumes srt: "sorted_wrt (<) c" and ne: "c \<noteq> []"
    and g: "MultiFind_group c minsep = (istart, istop)"
  shows "list_all (\<lambda>(s, e). s \<le> e) (zip istart (MultiFind_bump istart istop))"
    and "sorted_wrt (\<lambda>(s, e) (s', e'). s < s' \<and> e + minsep \<le> s')
           (zip istart (MultiFind_bump istart istop))"
    and "list_all (\<lambda>(s, e). 0 \<le> s \<and> nat s \<in> set c \<and> (e = s + 1 \<or> 0 \<le> e \<and> nat e \<in> set c))
           (zip istart (MultiFind_bump istart istop))"
proof -
  let ?G = "MultiFind_breaks c minsep"
  let ?m = "length ?G"
  let ?S = "\<lambda>j. if j = 0 then 0 else Suc (?G ! (j - 1))"
  let ?E = "\<lambda>j. if j < ?m then ?G ! j else length c - 1"
  let ?B = "MultiFind_bump istart istop"
  note gn = group_nth[OF ne g]
  have n: "0 < length c" using ne by simp
  have Glt: "?G ! k < length c - 1" if "k < ?m" for k
    using nth_mem[OF that] by (simp add: breaks_mem)
  have Ggap: "minsep < int (c ! Suc (?G ! k)) - int (c ! (?G ! k))" if "k < ?m" for k
    using nth_mem[OF that] by (simp add: breaks_mem)
  have Gmono: "?G ! a < ?G ! b" if "a < b" "b < ?m" for a b
    using breaks_sorted[of c minsep] that by (simp add: sorted_wrt_iff_nth_less)
  have Elt: "?E j < length c" if "j \<le> ?m" for j
    using that n Glt[of j] by auto
  have SE: "?S j \<le> ?E j" if "j \<le> ?m" for j
  proof (cases j)
    case 0
    then show ?thesis by simp
  next
    case (Suc k)
    then have k: "k < ?m" using that by simp
    show ?thesis
    proof (cases "Suc k < ?m")
      case True
      then show ?thesis using Gmono[of k "Suc k"] Suc by simp
    next
      case False
      then show ?thesis using Glt[OF k] Suc by simp
    qed
  qed
  have se: "istart ! j \<le> istop ! j" if "j \<le> ?m" for j
    using strict_sorted_nth_mono[OF srt SE[OF that] Elt[OF that]] that
    by (simp only: gn(3)[OF that] gn(4)[OF that])
  have len: "length istart = length istop" "length ?B = Suc ?m" "length istart = Suc ?m"
    by (simp_all add: gn(1,2))
  have B: "?B ! j = (if istart ! j - istop ! j = 0 then istop ! j + 1 else istop ! j)"
    if "j \<le> ?m" for j
    using that bump_nth[of istart istop j] by (simp add: gn(1,2))
  have zlen: "length (zip istart ?B) = Suc ?m" by (simp add: gn(1,2))
  have znth: "zip istart ?B ! j = (istart ! j, ?B ! j)" if "j \<le> ?m" for j
    using that by (simp add: gn(1,2))
  show "list_all (\<lambda>(s, e). s \<le> e) (zip istart ?B)"
    unfolding list_all_length
  proof (intro allI impI)
    fix j assume "j < length (zip istart ?B)"
    then have j: "j \<le> ?m" by (simp only: zlen less_Suc_eq_le)
    show "case zip istart ?B ! j of (s, e) \<Rightarrow> s \<le> e"
      using se[OF j] by (simp add: znth[OF j] B[OF j])
  qed
  show "sorted_wrt (\<lambda>(s, e) (s', e'). s < s' \<and> e + minsep \<le> s') (zip istart ?B)"
    unfolding sorted_wrt_iff_nth_less
  proof (intro allI impI)
    fix i j assume ij: "i < j" and "j < length (zip istart ?B)"
    then have j: "j \<le> ?m" by (simp only: zlen less_Suc_eq_le)
    with ij have i: "i < ?m" "i \<le> ?m" by simp_all
    from ij obtain k where k: "j = Suc k" "i \<le> k" "k < ?m" using j by (cases j) auto
    have Gik: "?G ! i \<le> ?G ! k" using Gmono[of i k] k by (cases "i = k") auto
    have "Suc (?G ! i) \<le> Suc (?G ! k)" using Gik by simp
    moreover have "Suc (?G ! k) < length c" using Glt[OF k(3)] by simp
    ultimately have cle: "c ! Suc (?G ! i) \<le> c ! Suc (?G ! k)"
      by (rule strict_sorted_nth_mono[OF srt])
    have "Suc (?G ! i) < length c" using Glt[OF i(1)] by simp
    then have "c ! (?G ! i) < c ! Suc (?G ! i)"
      using srt by (simp add: sorted_wrt_iff_nth_less)
    with cle have clt: "c ! (?G ! i) < c ! Suc (?G ! k)" by simp
    note cle
    moreover have sj: "istart ! j = int (c ! Suc (?G ! k))"
      using gn(3)[OF j] k by simp
    moreover have ei: "istop ! i = int (c ! (?G ! i))"
      using gn(4)[OF i(2)] i by simp
    ultimately have far: "istop ! i + minsep < istart ! j"
      using Ggap[OF i(1)] by simp
    have near: "istop ! i < istart ! j" using clt by (simp add: sj ei)
    have "istart ! i \<le> istop ! i" by (rule se[OF i(2)])
    with far near have "istart ! i < istart ! j \<and> ?B ! i + minsep \<le> istart ! j"
      by (simp add: B[OF i(2)])
    then show "(case zip istart ?B ! i of (s, e) \<Rightarrow> \<lambda>(s', e'). s < s' \<and> e + minsep \<le> s')
                 (zip istart ?B ! j)"
      by (simp add: znth[OF i(2)] znth[OF j])
  qed
  show "list_all (\<lambda>(s, e). 0 \<le> s \<and> nat s \<in> set c \<and> (e = s + 1 \<or> 0 \<le> e \<and> nat e \<in> set c))
          (zip istart ?B)"
    unfolding list_all_length
  proof (intro allI impI)
    fix j assume "j < length (zip istart ?B)"
    then have j: "j \<le> ?m" by (simp only: zlen less_Suc_eq_le)
    have "?S j < length c" using SE[OF j] Elt[OF j] by simp
    then have "c ! ?S j \<in> set c" by (rule nth_mem)
    then have s: "0 \<le> istart ! j \<and> nat (istart ! j) \<in> set c"
      by (simp only: gn(3)[OF j]) simp
    have "c ! ?E j \<in> set c" using Elt[OF j] by (rule nth_mem)
    then have e: "0 \<le> istop ! j \<and> nat (istop ! j) \<in> set c"
      by (simp only: gn(4)[OF j]) simp
    show "case zip istart ?B ! j of (s, e) \<Rightarrow>
            0 \<le> s \<and> nat s \<in> set c \<and> (e = s + 1 \<or> 0 \<le> e \<and> nat e \<in> set c)"
      using s e by (auto simp: znth[OF j] B[OF j])
  qed
qed

lemma MultiFind_select_events:
  assumes r: "MultiFind_select time bad isflare gapwindow minsep = Inr (istart, istop)"
  shows "list_all (\<lambda>(s, e). s \<le> e) (zip istart istop)"
    and "sorted_wrt (\<lambda>(s, e) (s', e'). s < s' \<and> e + minsep \<le> s') (zip istart istop)"
    and "list_all (\<lambda>(s, e). 0 \<le> s \<and> nat s \<in> set (MultiFind_cand1 bad isflare)
            \<and> (e = s + 1 \<or> 0 \<le> e \<and> nat e \<in> set (MultiFind_cand1 bad isflare)))
           (zip istart istop)"
proof -
  from r obtain c where c: "MultiFind_edges time (MultiFind_cand1 bad isflare) gapwindow = Inr c"
    and s: "istart = fst (MultiFind_group c minsep)"
    and e: "istop = MultiFind_bump (fst (MultiFind_group c minsep)) (snd (MultiFind_group c minsep))"
    by (auto simp: MultiFind_select_def split: sum.splits)
  from MultiFind_edges_sublist[OF c cand1_sorted]
  have srt: "sorted_wrt (<) c" and sub: "set c \<subseteq> set (MultiFind_cand1 bad isflare)" by auto
  show "list_all (\<lambda>(s, e). s \<le> e) (zip istart istop)"
  proof (cases "c = []")
    case True
    then show ?thesis by (simp add: s e MultiFind_group_def)
  next
    case False
    from group_events(1)[OF srt False, of minsep "fst (MultiFind_group c minsep)"
        "snd (MultiFind_group c minsep)"]
    show ?thesis by (simp add: s e)
  qed
  show "sorted_wrt (\<lambda>(s, e) (s', e'). s < s' \<and> e + minsep \<le> s') (zip istart istop)"
  proof (cases "c = []")
    case True
    then show ?thesis by (simp add: s e MultiFind_group_def)
  next
    case False
    from group_events(2)[OF srt False, of minsep "fst (MultiFind_group c minsep)"
        "snd (MultiFind_group c minsep)"]
    show ?thesis by (simp add: s e)
  qed
  show "list_all (\<lambda>(s, e). 0 \<le> s \<and> nat s \<in> set (MultiFind_cand1 bad isflare)
            \<and> (e = s + 1 \<or> 0 \<le> e \<and> nat e \<in> set (MultiFind_cand1 bad isflare)))
           (zip istart istop)"
  proof (cases "c = []")
    case True
    then show ?thesis by (simp add: s e MultiFind_group_def)
  next
    case False
    from group_events(3)[OF srt False, of minsep "fst (MultiFind_group c minsep)"
        "snd (MultiFind_group c minsep)"]
    have "list_all (\<lambda>(s, e). 0 \<le> s \<and> nat s \<in> set c \<and> (e = s + 1 \<or> 0 \<le> e \<and> nat e \<in> set c))
            (zip istart istop)"
      by (simp add: s e)
    then show ?thesis
      by (rule list.pred_mono_strong) (use sub in auto)
  qed
qed

lemma FlagCuts_fold_nth:
  "length bad = length flags \<Longrightarrow> i < length flags \<Longrightarrow>
     fold (\<lambda>k bad. map (\<lambda>(b, f). b + (f AND k)) (zip bad flags)) ks bad ! i =
       bad ! i + (\<Sum>k\<leftarrow>ks. flags ! i AND k)"
  by (induction ks arbitrary: bad) (simp_all add: algebra_simps)

lemma FlagCuts_bad_nth:
  "i < length flags \<Longrightarrow>
     FlagCuts_bad flags default_bad_flags ! i =
       (flags ! i AND 16) + (flags ! i AND 128) + (flags ! i AND 2048)"
  by (simp add: FlagCuts_bad_def default_bad_flags_def FlagCuts_fold_nth)

lemma FlagCuts_bad_length [simp]: "length (FlagCuts_bad flags ks) = length flags"
proof -
  have "length (fold (\<lambda>k bad. map (\<lambda>(b, f). b + (f AND k)) (zip bad flags)) ks bad) = length flags"
    if "length bad = length flags" for bad
    using that by (induction ks arbitrary: bad) simp_all
  then show ?thesis by (simp add: FlagCuts_bad_def)
qed

lemma FlagCuts_good_iff:
  assumes "i < length flags"
  shows "FlagCuts_bad flags default_bad_flags ! i < 1 \<longleftrightarrow>
           flags ! i AND 16 = 0 \<and> flags ! i AND 128 = 0 \<and> flags ! i AND 2048 = 0"
proof -
  have "0 \<le> flags ! i AND 16" "0 \<le> flags ! i AND 128" "0 \<le> flags ! i AND 2048"
    by simp_all
  then have "(flags ! i AND 16) + (flags ! i AND 128) + (flags ! i AND 2048) < 1 \<longleftrightarrow>
      flags ! i AND 16 = 0 \<and> flags ! i AND 128 = 0 \<and> flags ! i AND 2048 = 0"
    by linarith
  then show ?thesis using assms by (simp only: FlagCuts_bad_nth)
qed

text \<open>
  Claim C5, as the code has it. \<open>FINDflare\<close> runs on the whole series, bad-quality
  samples included. Afterwards \<open>MultiFind\<close> keeps, as candidate samples, the samples
  inside a detected run whose quality mask has none of the bits 16, 128, 2048 set, and
  groups them: every reported start index is such a sample, and every reported stop
  index is such a sample or is the start index plus one.
\<close>

theorem MultiFind_quality_cut:
  assumes r: "MultiFind L detrender time flux error flags gapwindow minsep =
                Inr (istart, istop, model)"
  shows "list_all (\<lambda>(s, e).
            (0 \<le> s \<and> nat s < length flags
             \<and> flags ! nat s AND 16 = 0 \<and> flags ! nat s AND 128 = 0
             \<and> flags ! nat s AND 2048 = 0
             \<and> 0 < FINDflare_binary L (snd (detrender time flux error)) error 3 1 3 True 7
                     ! nat s)
            \<and> (e = s + 1
               \<or> (0 \<le> e \<and> nat e < length flags
                  \<and> flags ! nat e AND 16 = 0 \<and> flags ! nat e AND 128 = 0
                  \<and> flags ! nat e AND 2048 = 0
                  \<and> 0 < FINDflare_binary L (snd (detrender time flux error)) error 3 1 3 True 7
                          ! nat e)))
          (zip istart istop)"
proof -
  let ?bad = "FlagCuts_bad flags default_bad_flags"
  let ?isf = "FINDflare_binary L (snd (detrender time flux error)) error 3 1 3 True 7"
  from r have sel: "MultiFind_select time ?bad ?isf gapwindow minsep = Inr (istart, istop)"
    by (auto simp: MultiFind_def split: sum.splits)
  have good: "i < length flags \<and> flags ! i AND 16 = 0 \<and> flags ! i AND 128 = 0
                \<and> flags ! i AND 2048 = 0 \<and> 0 < ?isf ! i"
    if "i \<in> set (MultiFind_cand1 ?bad ?isf)" for i
  proof -
    from that have i: "i < length flags" "?bad ! i < 1" "0 < ?isf ! i"
      by (simp_all add: cand1_mem)
    from FlagCuts_good_iff[OF i(1)] i show ?thesis by blast
  qed
  show ?thesis
    by (rule list.pred_mono_strong[OF MultiFind_select_events(3)[OF sel]])
       (use good in auto)
qed

theorem MultiFind_quality_cut_witness:
  "MultiFind
     \<lparr>nanmedian = (\<lambda>xs. Fin 0), nanstd = (\<lambda>xs. Fin 3), rolling_std = (\<lambda>w xs. xs)\<rparr>
     (\<lambda>t f e. (replicate (length f) (Fin 0), f))
     (map (\<lambda>i. Fin (real i)) [0..<30])
     (replicate 10 (Fin 0) @ [Fin 10, Fin 10, Fin 10] @ replicate 17 (Fin 0))
     (replicate 30 (Fin 1))
     (replicate 30 0) (Fin (1 / 10)) 3 = Inr ([10], [12], replicate 30 (Fin 0))
   \<and> list_all (\<lambda>(s, e). (0::int) \<le> s \<and> nat s < 30 \<and> (e = s + 1 \<or> 0 \<le> e \<and> nat e < 30))
        (zip [10] [12])"
proof -
  let ?L = "\<lparr>nanmedian = (\<lambda>xs. Fin 0), nanstd = (\<lambda>xs. Fin 3), rolling_std = (\<lambda>w xs. xs)\<rparr>"
  let ?D = "\<lambda>t f e. (replicate (length (f :: npfloat list)) (Fin 0), f)"
  have r: "MultiFind ?L ?D (map (\<lambda>i. Fin (real i)) [0..<30])
     (replicate 10 (Fin 0) @ [Fin 10, Fin 10, Fin 10] @ replicate 17 (Fin 0))
     (replicate 30 (Fin 1))
     (replicate 30 0) (Fin (1 / 10)) 3 = Inr ([10], [12], replicate 30 (Fin 0))"
    by code_simp
  from MultiFind_quality_cut[OF r] r show ?thesis by simp
qed

text \<open>
  Claim C5 as stated fails. Thirty samples at times \<open>0, 1, \<dots>, 29\<close>, the signal zero
  but for the value 10 at the samples 10, 11, 12, and the quality mask 128 at sample
  11. The median of the signal and the median of its rolling standard deviation are
  both zero there, so \<open>FINDflare\<close> flags exactly the samples 10, 11, 12 and detects the
  run \<open>[10, 12]\<close>. \<open>MultiFind\<close> reports the range \<open>[10, 12]\<close>, which contains the
  bad-quality sample 11; and with sample 11 removed before the run detection the run
  would have two samples only and \<open>FINDflare\<close> would detect nothing.
\<close>

theorem MultiFind_bad_sample_inside_range:
  "MultiFind
     \<lparr>nanmedian = (\<lambda>xs. Fin 0), nanstd = (\<lambda>xs. Fin 3), rolling_std = (\<lambda>w xs. xs)\<rparr>
     (\<lambda>t f e. (replicate (length f) (Fin 0), f))
     (map (\<lambda>i. Fin (real i)) [0..<30])
     (replicate 10 (Fin 0) @ [Fin 10, Fin 10, Fin 10] @ replicate 17 (Fin 0))
     (replicate 30 (Fin 1))
     (replicate 11 0 @ [128] @ replicate 18 0) (Fin (1 / 10)) 3
     = Inr ([10], [12], replicate 30 (Fin 0))
   \<and> FlagCuts_bad (replicate 11 0 @ [128] @ replicate 18 0) default_bad_flags ! 11 = 128
   \<and> FINDflare
       \<lparr>nanmedian = (\<lambda>xs. Fin 0), nanstd = (\<lambda>xs. Fin 3), rolling_std = (\<lambda>w xs. xs)\<rparr>
       (replicate 10 (Fin 0) @ [Fin 10, Fin 10] @ replicate 17 (Fin 0))
       (replicate 29 (Fin 1)) 3 1 3 True 7 = ([], [])"
  by code_simp

text \<open>
  Claim C8, as the code has it. Every candidate has \<open>start \<le> stop\<close> and the candidates
  are ordered by start. The ranges of \<open>FINDflare\<close> are pairwise disjoint, the next
  start at least two indices after the previous stop. The events of \<open>MultiFind\<close> have
  the next start at least \<open>minsep\<close> indices after the previous stop, so they are pairwise
  disjoint when \<open>minsep \<ge> 1\<close>.
\<close>

theorem candidates_ordered_and_separated:
  "(FINDflare L flux error N1 N2 N3 avg_std std_window = (fstart, fstop) \<longrightarrow>
      list_all (\<lambda>(s, e). s \<le> e) (zip fstart fstop)
      \<and> sorted_wrt (\<lambda>(s, e) (s', e'). s < s' \<and> e + 2 \<le> s') (zip fstart fstop))
   \<and> (MultiFind L detrender time flux error flags gapwindow minsep =
         Inr (istart, istop, model) \<longrightarrow>
      list_all (\<lambda>(s, e). s \<le> e) (zip istart istop)
      \<and> sorted_wrt (\<lambda>(s, e) (s', e'). s < s' \<and> e + minsep \<le> s') (zip istart istop)
      \<and> (1 \<le> minsep \<longrightarrow> sorted_wrt (\<lambda>(s, e) (s', e'). e < s') (zip istart istop)))"
proof (intro conjI impI)
  assume r: "FINDflare L flux error N1 N2 N3 avg_std std_window = (fstart, fstop)"
  then have rr: "FINDflare_runs (FINDflare_cindx L flux error N1 N2 avg_std std_window) N3 =
                   (fstart, fstop)"
    by (simp add: FINDflare_def)
  show "list_all (\<lambda>(s, e). s \<le> e) (zip fstart fstop)"
    by (rule FINDflare_runs_ordered(1)[OF cindx_binary rr])
  show "sorted_wrt (\<lambda>(s, e) (s', e'). s < s' \<and> e + 2 \<le> s') (zip fstart fstop)"
    by (rule FINDflare_runs_ordered(2)[OF cindx_binary rr])
next
  assume r: "MultiFind L detrender time flux error flags gapwindow minsep =
               Inr (istart, istop, model)"
  then have sel: "MultiFind_select time (FlagCuts_bad flags default_bad_flags)
       (FINDflare_binary L (snd (detrender time flux error)) error 3 1 3 True 7)
       gapwindow minsep = Inr (istart, istop)"
    by (auto simp: MultiFind_def split: sum.splits)
  show "list_all (\<lambda>(s, e). s \<le> e) (zip istart istop)"
    by (rule MultiFind_select_events(1)[OF sel])
  show sep: "sorted_wrt (\<lambda>(s, e) (s', e'). s < s' \<and> e + minsep \<le> s') (zip istart istop)"
    by (rule MultiFind_select_events(2)[OF sel])
  assume "1 \<le> minsep"
  then show "sorted_wrt (\<lambda>(s, e) (s', e'). e < s') (zip istart istop)"
    by (intro sorted_wrt_mono_rel[OF _ sep]) auto
qed

theorem candidates_ordered_and_separated_witness:
  "FINDflare
     \<lparr>nanmedian = (\<lambda>xs. Fin 0), nanstd = (\<lambda>xs. Fin 3), rolling_std = (\<lambda>w xs. xs)\<rparr>
     (replicate 10 (Fin 0) @ [Fin 10, Fin 10, Fin 10, Fin 0, Fin 0, Fin 0, Fin 10, Fin 10, Fin 10]
        @ replicate 21 (Fin 0))
     (replicate 40 (Fin 1)) 3 1 3 True 7 = ([10, 16], [12, 18])
   \<and> MultiFind
       \<lparr>nanmedian = (\<lambda>xs. Fin 0), nanstd = (\<lambda>xs. Fin 3), rolling_std = (\<lambda>w xs. xs)\<rparr>
       (\<lambda>t f e. (replicate (length f) (Fin 0), f))
       (map (\<lambda>i. Fin (real i)) [0..<40])
       (replicate 10 (Fin 0) @ [Fin 10, Fin 10, Fin 10, Fin 0, Fin 0, Fin 0, Fin 10, Fin 10, Fin 10]
          @ replicate 21 (Fin 0))
       (replicate 40 (Fin 1))
       (replicate 40 0) (Fin (1 / 10)) 3 = Inr ([10, 16], [12, 18], replicate 40 (Fin 0))
   \<and> (1::int) \<le> 3
   \<and> sorted_wrt (\<lambda>(s, e) (s', e'). s < s' \<and> e + 2 \<le> s') (zip [10, 16] [12, 18 :: int])
   \<and> sorted_wrt (\<lambda>(s, e) (s', e'). s < s' \<and> e + 3 \<le> s') (zip [10, 16] [12, 18 :: int])
   \<and> sorted_wrt (\<lambda>(s, e) (s', e'). e < s') (zip [10, 16] [12, 18 :: int])"
proof -
  let ?L = "\<lparr>nanmedian = (\<lambda>xs. Fin 0), nanstd = (\<lambda>xs. Fin 3), rolling_std = (\<lambda>w xs. xs)\<rparr>"
  let ?D = "\<lambda>t f e. (replicate (length (f :: npfloat list)) (Fin 0), f)"
  let ?flux = "replicate 10 (Fin 0)
     @ [Fin 10, Fin 10, Fin 10, Fin 0, Fin 0, Fin 0, Fin 10, Fin 10, Fin 10] @ replicate 21 (Fin 0)"
  have f: "FINDflare ?L ?flux (replicate 40 (Fin 1)) 3 1 3 True 7 = ([10, 16], [12, 18])"
    by code_simp
  have m: "MultiFind ?L ?D (map (\<lambda>i. Fin (real i)) [0..<40]) ?flux (replicate 40 (Fin 1))
     (replicate 40 0) (Fin (1 / 10)) 3 = Inr ([10, 16], [12, 18], replicate 40 (Fin 0))"
    by code_simp
  have one: "(1::int) \<le> 3" by simp
  from candidates_ordered_and_separated[of ?L ?flux "replicate 40 (Fin 1)" 3 1 3 True 7
      "[10, 16]" "[12, 18]" ?D "map (\<lambda>i. Fin (real i)) [0..<40]" "replicate 40 0"
      "Fin (1 / 10)" 3 "[10, 16]" "[12, 18]" "replicate 40 (Fin 0)"] f m one
  show ?thesis by simp
qed

text \<open>
  Claim C8 as stated fails. Forty samples at times \<open>0, 1, \<dots>, 39\<close>, the signal zero but
  for the value 10 at the samples 10 to 12 and 16 to 18, the quality mask 16 at the
  samples 10 and 11 and 128 at the samples 17 and 18. \<open>FINDflare\<close> detects the runs
  \<open>[10, 12]\<close> and \<open>[16, 18]\<close>; the good-quality candidates are the samples 12 and 16,
  more than \<open>minsep = 3\<close> apart, so they are two events, and each has its stop moved one
  index on. The events \<open>[12, 13]\<close> and \<open>[16, 17]\<close> are three indices apart, not more
  than \<open>minsep\<close>.
\<close>

theorem MultiFind_events_minsep_apart:
  "MultiFind
     \<lparr>nanmedian = (\<lambda>xs. Fin 0), nanstd = (\<lambda>xs. Fin 3), rolling_std = (\<lambda>w xs. xs)\<rparr>
     (\<lambda>t f e. (replicate (length f) (Fin 0), f))
     (map (\<lambda>i. Fin (real i)) [0..<40])
     (replicate 10 (Fin 0) @ [Fin 10, Fin 10, Fin 10, Fin 0, Fin 0, Fin 0, Fin 10, Fin 10, Fin 10]
        @ replicate 21 (Fin 0))
     (replicate 40 (Fin 1))
     (replicate 10 0 @ [16, 16, 0, 0, 0, 0, 0, 128, 128] @ replicate 21 0) (Fin (1 / 10)) 3
     = Inr ([12, 16], [13, 17], replicate 40 (Fin 0))
   \<and> \<not> (3 < (16::int) - 13)"
  by code_simp

section \<open>Properties of the completeness thresholds\<close>

lemma np_mask_length:
  "length xs = length ys \<Longrightarrow> length (np_mask (map f xs) ys) = length (filter f xs)"
  unfolding np_mask_def by (induction xs ys rule: list_induct2) simp_all

lemma np_mask_all: "list_all P a \<Longrightarrow> list_all P (np_mask rl a)"
  unfolding np_mask_def list_all_iff by (auto dest: set_zip_rightD)

lemma py_min_fold:
  assumes "list_all np_isfinite (m # ys)"
  shows "fold (\<lambda>y m. if np_lt y m then y else m) ys m \<in> set (m # ys)
       \<and> list_all (np_le (fold (\<lambda>y m. if np_lt y m then y else m) ys m)) (m # ys)"
  using assms
proof (induction ys arbitrary: m)
  case Nil
  then show ?case by (cases m) simp_all
next
  case (Cons y ys)
  define m' where "m' = (if np_lt y m then y else m)"
  define r where "r = fold (\<lambda>y m. if np_lt y m then y else m) ys m'"
  have step: "fold (\<lambda>y m. if np_lt y m then y else m) (y # ys) m = r"
    by (simp add: r_def m'_def)
  from Cons.prems have fin: "list_all np_isfinite (m' # ys)" by (simp add: m'_def)
  from Cons.IH[OF fin] have r: "r \<in> set (m' # ys)" "list_all (np_le r) (m' # ys)"
    by (auto simp: r_def)
  from Cons.prems obtain a b where ab: "m = Fin a" "y = Fin b"
    by (cases m; cases y) simp_all
  from r(1) fin have "np_isfinite r" by (auto simp: list_all_iff)
  then obtain c where c: "r = Fin c" by (cases r) simp_all
  from r(2) have "np_le r m'" by simp
  then have "np_le r m \<and> np_le r y"
    by (cases "b < a") (auto simp: c ab m'_def)
  moreover from r(1) have "r \<in> set (m # y # ys)" by (auto simp: m'_def split: if_splits)
  ultimately show ?case unfolding step using r(2) by simp
qed

lemma py_min_least:
  assumes "xs \<noteq> []" "list_all np_isfinite xs"
  shows "py_min xs \<in> set xs" and "list_all (np_le (py_min xs)) xs"
proof -
  from assms(1) obtain m ys where xs: "xs = m # ys" by (cases xs) auto
  from py_min_fold[of m ys] assms(2)
  show "py_min xs \<in> set xs" and "list_all (np_le (py_min xs)) xs"
    by (simp_all add: xs py_min_def)
qed

lemma reach_index_mem:
  "i \<in> set (reach_index sm thr) \<longleftrightarrow> i < length sm \<and> np_ge (sm ! i) (Fin thr)"
  by (auto simp: reach_index_def)

lemma ed_reach_min:
  assumes len: "length C = length S" and fin: "list_all np_isfinite C"
  shows "\<exists>r. ed_reach C S thr = Inr r \<and> min_reach C S thr r"
proof (cases "reach_index S thr = []")
  case True
  then have "\<not> list_ex (\<lambda>s. np_ge s (Fin thr)) S"
    using reach_index_mem[of _ S thr] by (auto simp: list_ex_iff in_set_conv_nth)
  then show ?thesis using True by (simp add: ed_reach_def min_reach_def)
next
  case False
  let ?x = "reach_index S thr"
  let ?ys = "map ((!) C) ?x"
  let ?r = "py_min ?ys"
  have inb: "list_all (\<lambda>i. i < length C) ?x"
    by (simp add: list_all_iff reach_index_mem len)
  have run: "ed_reach C S thr = Inr ?r"
    using False inb by (simp add: ed_reach_def)
  have ne: "?ys \<noteq> []" using False by simp
  have yfin: "list_all np_isfinite ?ys"
    using fin inb by (auto simp: list_all_iff)
  note least = py_min_least[OF ne yfin]
  from least(1) obtain i where i: "i \<in> set ?x" "?r = C ! i" by auto
  then have i': "i < length S" "np_ge (S ! i) (Fin thr)" by (simp_all add: reach_index_mem)
  have ex1: "list_ex (\<lambda>s. np_ge s (Fin thr)) S"
    using i' by (auto simp: list_ex_iff)
  have "(C ! i, S ! i) \<in> set (zip C S)"
    using i' len by (auto simp: in_set_zip)
  then have ex2: "list_ex (\<lambda>(c, s). np_ge s (Fin thr) \<and> ?r = c) (zip C S)"
    using i' i(2) by (auto simp: list_ex_iff)
  have all: "list_all (\<lambda>(c, s). np_ge s (Fin thr) \<longrightarrow> np_le ?r c) (zip C S)"
    unfolding list_all_iff
  proof (intro ballI, clarify)
    fix c s assume "(c, s) \<in> set (zip C S)" "np_ge s (Fin thr)"
    then obtain j where j: "j < length S" "C ! j = c" "S ! j = s"
      by (auto simp: in_set_zip)
    with \<open>np_ge s (Fin thr)\<close> have "j \<in> set ?x" by (simp add: reach_index_mem)
    then have "c \<in> set ?ys" using j by auto
    with least(2) show "np_le ?r c" by (auto simp: list_all_iff)
  qed
  show ?thesis using run ex1 ex2 all by (simp add: min_reach_def)
qed

lemma np_mask_filter: "np_mask (map P xs) xs = filter P xs"
  unfolding np_mask_def by (induction xs) simp_all

lemma np_mask_zip:
  "length cs = length fs \<Longrightarrow>
     np_mask (map P fs) cs = map fst (filter (\<lambda>(c, f). P f) (zip cs fs))"
  unfolding np_mask_def by (induction cs fs rule: list_induct2) simp_all

text \<open>
  Claim C3. For every completeness run (bin centres finite, one recovered fraction per
  bin), \<open>RunLC\<close> returns \<open>ed68\<close> and \<open>ed90\<close> without an error. The bins that count are
  the pairs (centre, recovered fraction) whose fraction is finite, in their order; the
  curve is the 3-point Wiener smoothing of the fractions of those bins. \<open>ed68\<close> (\<open>ed90\<close>)
  is the smallest centre among those bins whose smoothed fraction is at least 0.68
  (0.90), and the sentinel \<open>-99\<close> when no smoothed fraction reaches the threshold.
\<close>

theorem RunLC_completeness_thresholds:
  assumes len: "length ed_fake = length frac_rec"
    and wl: "length (wiener (filter np_isfinite frac_rec) 3) =
               length (filter np_isfinite frac_rec)"
    and fin: "list_all np_isfinite ed_fake"
  shows "\<exists>ed68 ed90.
           RunLC_completeness wiener ed_fake frac_rec = Inr (ed68, ed90)
           \<and> min_reach (map fst (filter (\<lambda>(c, f). np_isfinite f) (zip ed_fake frac_rec)))
                (wiener (filter np_isfinite frac_rec) 3) (68 / 100) ed68
           \<and> min_reach (map fst (filter (\<lambda>(c, f). np_isfinite f) (zip ed_fake frac_rec)))
                (wiener (filter np_isfinite frac_rec) 3) (90 / 100) ed90"
proof -
  let ?rl = "map np_isfinite frac_rec"
  let ?C = "map fst (filter (\<lambda>(c, f). np_isfinite f) (zip ed_fake frac_rec))"
  let ?S = "wiener (filter np_isfinite frac_rec) 3"
  have mC: "np_mask ?rl ed_fake = ?C" using len by (rule np_mask_zip)
  have mS: "np_mask ?rl frac_rec = filter np_isfinite frac_rec" by (rule np_mask_filter)
  have "length ?C = length (filter np_isfinite frac_rec)"
    using len unfolding mC[symmetric] by (simp add: np_mask_length)
  then have l: "length ?C = length ?S" using wl by simp
  have f: "list_all np_isfinite ?C"
    unfolding mC[symmetric] using fin by (rule np_mask_all)
  from ed_reach_min[OF l f, of "68 / 100"] obtain a where
    a: "ed_reach ?C ?S (68 / 100) = Inr a" "min_reach ?C ?S (68 / 100) a" by blast
  from ed_reach_min[OF l f, of "90 / 100"] obtain b where
    b: "ed_reach ?C ?S (90 / 100) = Inr b" "min_reach ?C ?S (90 / 100) b" by blast
  have "RunLC_completeness wiener ed_fake frac_rec = Inr (a, b)"
    unfolding RunLC_completeness_def Let_def mC mS a(1) b(1) by simp
  with a(2) b(2) show ?thesis by blast
qed

theorem RunLC_completeness_thresholds_witness:
  "length [Fin 1, Fin 2, Fin 3, Fin 4, Fin 5, Fin 6]
     = length [Fin 0, Fin (4 / 5), NaN, Fin 1, Fin 1, Fin 0]
   \<and> list_all np_isfinite [Fin 1, Fin 2, Fin 3, Fin 4, Fin 5, Fin 6]
   \<and> RunLC_completeness
        (\<lambda>xs k. map (\<lambda>i. np_div (np_add (np_add (if i = 0 then Fin 0 else xs ! (i - 1)) (xs ! i))
                                   (if Suc i < length xs then xs ! Suc i else Fin 0)) (Fin 3))
                  [0..<length xs])
        [Fin 1, Fin 2, Fin 3, Fin 4, Fin 5, Fin 6]
        [Fin 0, Fin (4 / 5), NaN, Fin 1, Fin 1, Fin 0] = Inr (Fin 4, Fin 4)
   \<and> min_reach [Fin 1, Fin 2, Fin 4, Fin 5, Fin 6]
        [Fin (4 / 15), Fin (3 / 5), Fin (14 / 15), Fin (2 / 3), Fin (1 / 3)] (68 / 100) (Fin 4)
   \<and> min_reach [Fin 1, Fin 2, Fin 4, Fin 5, Fin 6]
        [Fin (4 / 15), Fin (3 / 5), Fin (14 / 15), Fin (2 / 3), Fin (1 / 3)] (90 / 100) (Fin 4)
   \<and> ed_reach [Fin 1, Fin 2, Fin 3, Fin 4, Fin 5, Fin 6]
        (map (\<lambda>i. np_div (np_add (np_add (if i = 0 then Fin 0
                                           else [Fin 0, Fin (4 / 5), NaN, Fin 1, Fin 1, Fin 0] ! (i - 1))
                                          ([Fin 0, Fin (4 / 5), NaN, Fin 1, Fin 1, Fin 0] ! i))
                                  (if Suc i < 6 then [Fin 0, Fin (4 / 5), NaN, Fin 1, Fin 1, Fin 0] ! Suc i
                                   else Fin 0)) (Fin 3)) [0..<6])
        (68 / 100) = Inr (Fin (- 99))"
proof -
  let ?ed = "[Fin 1, Fin 2, Fin 3, Fin 4, Fin 5, Fin 6]"
  let ?fr = "[Fin 0, Fin (4 / 5), NaN, Fin 1, Fin 1, Fin 0]"
  let ?w = "\<lambda>(xs :: npfloat list) (k :: nat).
              map (\<lambda>i. np_div (np_add (np_add (if i = 0 then Fin 0 else xs ! (i - 1)) (xs ! i))
                                (if Suc i < length xs then xs ! Suc i else Fin 0)) (Fin 3))
                [0..<length xs]"
  have len: "length ?ed = length ?fr" by simp
  have wl: "length (?w (filter np_isfinite ?fr) 3) = length (filter np_isfinite ?fr)" by simp
  have fin: "list_all np_isfinite ?ed" by simp
  have run: "RunLC_completeness ?w ?ed ?fr = Inr (Fin 4, Fin 4)" by code_simp
  have mC: "map fst (filter (\<lambda>(c, f). np_isfinite f) (zip ?ed ?fr))
              = [Fin 1, Fin 2, Fin 4, Fin 5, Fin 6]" by code_simp
  have mS: "?w (filter np_isfinite ?fr) 3
              = [Fin (4 / 15), Fin (3 / 5), Fin (14 / 15), Fin (2 / 3), Fin (1 / 3)]" by code_simp
  from RunLC_completeness_thresholds[of ?ed ?fr ?w, OF len wl fin]
  have "\<exists>ed68 ed90. RunLC_completeness ?w ?ed ?fr = Inr (ed68, ed90)
      \<and> min_reach [Fin 1, Fin 2, Fin 4, Fin 5, Fin 6]
          [Fin (4 / 15), Fin (3 / 5), Fin (14 / 15), Fin (2 / 3), Fin (1 / 3)] (68 / 100) ed68
      \<and> min_reach [Fin 1, Fin 2, Fin 4, Fin 5, Fin 6]
          [Fin (4 / 15), Fin (3 / 5), Fin (14 / 15), Fin (2 / 3), Fin (1 / 3)] (90 / 100) ed90"
    by (simp only: mC mS)
  with run have "min_reach [Fin 1, Fin 2, Fin 4, Fin 5, Fin 6]
          [Fin (4 / 15), Fin (3 / 5), Fin (14 / 15), Fin (2 / 3), Fin (1 / 3)] (68 / 100) (Fin 4)
      \<and> min_reach [Fin 1, Fin 2, Fin 4, Fin 5, Fin 6]
          [Fin (4 / 15), Fin (3 / 5), Fin (14 / 15), Fin (2 / 3), Fin (1 / 3)] (90 / 100) (Fin 4)"
    by auto
  moreover have "ed_reach ?ed
        (map (\<lambda>i. np_div (np_add (np_add (if i = 0 then Fin 0 else ?fr ! (i - 1)) (?fr ! i))
                                  (if Suc i < 6 then ?fr ! Suc i else Fin 0)) (Fin 3)) [0..<6])
        (68 / 100) = Inr (Fin (- 99))" by code_simp
  ultimately show ?thesis using len fin run by blast
qed

lemma RunLC_segments_no_fake:
  "\<exists>istart istop.
     fold (RunLC_step wiener False) segs
       (Inr (a, b, replicate (length a) (Fin (- 199)), replicate (length a) (Fin (- 199)))) =
     Inr (istart, istop, replicate (length istart) (Fin (- 199)),
          replicate (length istart) (Fin (- 199)))"
proof (induction segs arbitrary: a b)
  case Nil
  then show ?case by simp
next
  case (Cons g segs)
  have "RunLC_step wiener False g
          (Inr (a, b, replicate (length a) (Fin (- 199)), replicate (length a) (Fin (- 199)))) =
        Inr (a @ map (\<lambda>s. s + seg_dl g) (seg_istart g), b @ map (\<lambda>s. s + seg_dl g) (seg_istop g),
             replicate (length (a @ map (\<lambda>s. s + seg_dl g) (seg_istart g))) (Fin (- 199)),
             replicate (length (a @ map (\<lambda>s. s + seg_dl g) (seg_istart g))) (Fin (- 199)))"
    by (simp add: RunLC_step_def RunLC_ed_def replicate_add)
  then show ?case
    using Cons.IH[of "a @ map (\<lambda>s. s + seg_dl g) (seg_istart g)"
        "b @ map (\<lambda>s. s + seg_dl g) (seg_istop g)"]
    by (simp only: fold_simps)
qed

text \<open>
  Claim C9. With \<open>dofake = False\<close> the segment loop of \<open>RunLC\<close> never fails, and the
  \<open>ed68\<close> and \<open>ed90\<close> arrays it builds hold one value per detected event, each equal to
  \<open>-199\<close>. That value differs from \<open>-99\<close>, which is what the completeness block yields
  when no smoothed recovered fraction reaches the threshold.
\<close>

theorem RunLC_not_computed_sentinel:
  "(\<exists>istart istop.
      RunLC_segments wiener False segs =
        Inr (istart, istop, replicate (length istart) (Fin (- 199)),
             replicate (length istart) (Fin (- 199))))
   \<and> Fin (- 199) \<noteq> Fin (- 99)
   \<and> (reach_index frac_rec_sm thr = [] \<longrightarrow> ed_reach ed_rl frac_rec_sm thr = Inr (Fin (- 99)))"
proof -
  have "\<exists>istart istop.
      RunLC_segments wiener False segs =
        Inr (istart, istop, replicate (length istart) (Fin (- 199)),
             replicate (length istart) (Fin (- 199)))"
    using RunLC_segments_no_fake[of wiener segs "[]" "[]"] by (simp add: RunLC_segments_def)
  then show ?thesis by (simp add: ed_reach_def)
qed

theorem RunLC_not_computed_sentinel_witness:
  "RunLC_segments (\<lambda>xs k. xs) False
     [\<lparr>seg_istart = [1, 5], seg_istop = [3, 8], seg_ed_fake = [], seg_frac_rec = [], seg_dl = 0\<rparr>,
      \<lparr>seg_istart = [2], seg_istop = [4], seg_ed_fake = [], seg_frac_rec = [], seg_dl = 100\<rparr>]
     = Inr ([1, 5, 102], [3, 8, 104], [Fin (- 199), Fin (- 199), Fin (- 199)],
            [Fin (- 199), Fin (- 199), Fin (- 199)])
   \<and> reach_index [Fin (1 / 2), Fin (6 / 10)] (68 / 100) = []
   \<and> ed_reach [Fin 1, Fin 2] [Fin (1 / 2), Fin (6 / 10)] (68 / 100) = Inr (Fin (- 99))"
proof -
  have e: "reach_index [Fin (1 / 2), Fin (6 / 10)] (68 / 100) = []" by code_simp
  have r: "RunLC_segments (\<lambda>xs k. xs) False
     [\<lparr>seg_istart = [1, 5], seg_istop = [3, 8], seg_ed_fake = [], seg_frac_rec = [], seg_dl = 0\<rparr>,
      \<lparr>seg_istart = [2], seg_istop = [4], seg_ed_fake = [], seg_frac_rec = [], seg_dl = 100\<rparr>]
     = Inr ([1, 5, 102], [3, 8, 104], [Fin (- 199), Fin (- 199), Fin (- 199)],
            [Fin (- 199), Fin (- 199), Fin (- 199)])" by code_simp
  from RunLC_not_computed_sentinel[of "\<lambda>xs k. xs" _ "[Fin (1 / 2), Fin (6 / 10)]" "68 / 100"
      "[Fin 1, Fin 2]"] e r
  show ?thesis by simp
qed

section \<open>Properties of FlareStats\<close>















text \<open>
  Claim C6 fails on a zero-width candidate at either end of the data. Three samples,
  candidate \<open>istart = istop = 2\<close> (the last sample): the widening makes the stop index
  3 and \<open>time[istop]\<close> raises IndexError. Candidate \<open>istart = istop = 0\<close> (the first
  sample): the widening makes the start index \<open>-1\<close>, the slice \<open>flux[-1:2]\<close> is empty
  and \<open>np.max\<close> of the empty array raises ValueError. Both hold for every behaviour of
  the library functions.
\<close>

theorem FlareStats_zero_width_at_edge_raises:
  "FlareStats L [Fin 0, Fin 1, Fin 2] [Fin 1, Fin 1, Fin 1] [Fin 1, Fin 1, Fin 1]
     [Fin 1, Fin 1, Fin 1] 2 2 2 = Inl IndexError
   \<and> FlareStats L [Fin 0, Fin 1, Fin 2] [Fin 1, Fin 1, Fin 1] [Fin 1, Fin 1, Fin 1]
       [Fin 1, Fin 1, Fin 1] 0 0 2 = Inl ValueError"
proof
  have r: "FlareStats_range (length [Fin 1, Fin 1, Fin (1::real)]) 2 2 = (1, 3)"
    by (simp add: FlareStats_range_def)
  have g: "py_get [Fin 0, Fin 1, Fin (2::real)] 1 = Inr (Fin 1)"
    "py_get [Fin 0, Fin 1, Fin (2::real)] 3 = Inl IndexError"
    by (simp_all add: py_get_def py_index_def)
  have "FlareStats_baseline L [Fin 0, Fin 1, Fin 2] [Fin 1, Fin 1, Fin 1] 2 2 2 = Inl IndexError"
    unfolding FlareStats_baseline_def r fst_conv snd_conv g by simp
  then show "FlareStats L [Fin 0, Fin 1, Fin 2] [Fin 1, Fin 1, Fin 1] [Fin 1, Fin 1, Fin 1]
     [Fin 1, Fin 1, Fin 1] 2 2 2 = Inl IndexError"
    by (simp add: FlareStats_def FlareStats_measure_def)
next
  let ?time = "[Fin 0, Fin 1, Fin (2::real)]"
  let ?flux = "[Fin 1, Fin 1, Fin (1::real)]"
  have r: "FlareStats_range (length ?flux) 0 0 = (- 1, 1)"
    by (simp add: FlareStats_range_def)
  have g: "py_get ?time (- 1) = Inr (Fin 2)" "py_get ?time 1 = Inr (Fin 1)"
    by (simp_all add: py_get_def py_index_def)
  have w: "cont_c1 ?time (Fin 2) (Fin 1) = []" "cont_c2 ?time (Fin 2) (Fin 1) = []"
    by (simp_all add: cont_c1_def cont_c2_def cont_window_def np_sub_def np_ge_def upt_rec)
  have ci: "FlareStats_contindx ?time (- 1) 1 (Fin 2) (Fin 1) 2 = ([- 1, 1], 1)"
    by (simp add: FlareStats_contindx_def w)
  have tk: "py_take ?flux [- 1, 1] = Inr [Fin 1, Fin 1]" "py_take ?time [- 1, 1] = Inr [Fin 2, Fin 1]"
    by (simp_all add: py_take_def py_index_def)
  have b: "FlareStats_baseline L ?time ?flux 0 0 2 =
             Inr (- 1, 1, Fin 2, Fin 1, [- 1, 1], 1, [Fin 1, Fin 1], [Fin 2, Fin 1],
                  polyfit_solve L [Fin 2, Fin 1] [Fin 1, Fin 1] 1)"
    apply (simp only: FlareStats_baseline_def r fst_conv snd_conv g sum.case Let_def)
    apply (simp only: ci fst_conv snd_conv tk sum.case)
    apply (simp add: np_polyfit_def)
    done
  have sl: "py_slice ?flux (- 1) 2 = []" "py_slice ?time (- 1) 2 = []"
    by (simp_all add: py_slice_def py_bound_def)
  have "FlareStats_measure L ?time ?flux [Fin 1, Fin 1, Fin 1] [Fin 1, Fin 1, Fin 1] 0 0 2 =
          Inl ValueError"
    unfolding FlareStats_measure_def b
    by (simp add: sl np_polyval_def np_max_def np_broadcast_def)
  then show "FlareStats L ?time ?flux [Fin 1, Fin 1, Fin 1] [Fin 1, Fin 1, Fin 1] 0 0 2 =
               Inl ValueError"
    by (simp add: FlareStats_def)
qed




lemma np_polyval_length [simp]: "length (np_polyval p x) = length x"
  by (simp add: np_polyval_def)








end
